theory Spec2Isabelle
  imports Main "HOL-Library.Word" "HOL-Library.Multiset"
begin

section \<open>\<^verbatim>\<open>interactive_pool\<close>: a pool of resources with timing metrics and detectors\<close>

text \<open>
  A shallow embedding of \<^verbatim>\<open>include/interactive_pool.h\<close>. Every method is a function that
  takes the object it works on and returns the updated object; an exception or an
  operation whose behaviour C++ leaves undefined is the left summand of the result.
  The embedding follows one thread: a critical section under \<^verbatim>\<open>_lock\<close> is one atomic
  step and no other thread changes the pool while a method runs.
\<close>

subsection \<open>Machine integers, errors, callbacks\<close>

type_synonym u32 = "32 word"

text \<open>
  \<^verbatim>\<open>std::runtime_error\<close> carries its message. The other two values stand for
  executions that C++ leaves undefined: \<^verbatim>\<open>pop_front\<close> on an empty deque and an integer
  division by zero.
\<close>

datatype error =
    runtime_error string
  | pop_front_on_empty
  | division_by_zero

text \<open>
  A detector's callback is a \<^verbatim>\<open>std::function<void(T, uint32_t, uint32_t)>\<close> supplied by
  the user. A call of it is recorded as the triple of its arguments; the callback is
  taken to return normally.
\<close>

type_synonym 'id callback_call = "'id \<times> u32 \<times> u32"

subsection \<open>\<^verbatim>\<open>interactive_peak_detector\<close>\<close>

record 'id interactive_peak_detector =
  peak_id :: 'id
  peak_trigger_level :: u32

definition interactive_peak_detector_ctor :: "'id \<Rightarrow> u32 \<Rightarrow> 'id interactive_peak_detector" where
  "interactive_peak_detector_ctor ident trigger_level =
     \<lparr>peak_id = ident, peak_trigger_level = trigger_level\<rparr>"

text \<open>
  \<^verbatim>\<open>set_elapsed_time\<close> of the peak detector writes no member: the detector is returned
  as it was, with the calls of the callback made.
\<close>

definition peak_set_elapsed_time ::
  "'id interactive_peak_detector \<Rightarrow> u32 \<Rightarrow> 'id interactive_peak_detector \<times> 'id callback_call list" where
  "peak_set_elapsed_time d i =
     (if i > peak_trigger_level d
      then (d, [(peak_id d, peak_trigger_level d, i)])
      else (d, []))"

text \<open>A run of calls on one peak detector, the callback calls of each call kept apart.\<close>

fun peak_run ::
  "'id interactive_peak_detector \<Rightarrow> u32 list \<Rightarrow>
     'id interactive_peak_detector \<times> 'id callback_call list list" where
  "peak_run d [] = (d, [])"
| "peak_run d (i # is) =
     (case peak_set_elapsed_time d i of
        (d', cs) \<Rightarrow> (case peak_run d' is of (d'', css) \<Rightarrow> (d'', cs # css)))"

subsection \<open>\<^verbatim>\<open>interactive_average_detector\<close>\<close>

text \<open>
  \<^verbatim>\<open>_samples_count\<close> is a \<^verbatim>\<open>size_t\<close>; it is only compared with the deque's size, so
  it is a natural number here. \<^verbatim>\<open>_samples\<close> is the deque, front first.
\<close>

record 'id interactive_average_detector =
  avg_id :: 'id
  samples_count :: nat
  samples :: "u32 list"
  avg_trigger_level :: u32

text \<open>
  The member initialiser \<^verbatim>\<open>_samples(samples)\<close> calls the deque constructor that takes a
  size: it builds a deque of \<^verbatim>\<open>samples\<close> value-initialised elements, that is zeros.
\<close>

definition interactive_average_detector_ctor ::
  "'id \<Rightarrow> nat \<Rightarrow> u32 \<Rightarrow> 'id interactive_average_detector" where
  "interactive_average_detector_ctor ident n trigger_level =
     \<lparr>avg_id = ident, samples_count = n, samples = replicate n 0,
      avg_trigger_level = trigger_level\<rparr>"

text \<open>
  \<^verbatim>\<open>std::accumulate(begin, end, 0)\<close> sums in the type of its initial value, \<^verbatim>\<open>int\<close>:
  each step computes \<^verbatim>\<open>acc + x\<close> in \<^verbatim>\<open>unsigned\<close> and stores it back into the
  \<^verbatim>\<open>int\<close>, so the sum is kept modulo \<open>2 ^ 32\<close>. The division converts that \<^verbatim>\<open>int\<close> to
  \<^verbatim>\<open>uint32_t\<close> again (the divisor is a \<^verbatim>\<open>uint32_t\<close>) and is unsigned; the divisor is
  the deque's size cut to 32 bits.
\<close>

definition accumulate :: "u32 list \<Rightarrow> u32" where
  "accumulate xs = foldl (\<lambda>acc x. acc + x) 0 xs"

definition average :: "'id interactive_average_detector \<Rightarrow> error + u32" where
  "average d =
     (if samples d = [] then Inr 0
      else if (of_nat (length (samples d)) :: u32) = 0 then Inl division_by_zero
      else Inr (accumulate (samples d) div of_nat (length (samples d))))"

definition average_set_elapsed_time ::
  "'id interactive_average_detector \<Rightarrow> u32 \<Rightarrow>
     error + ('id interactive_average_detector \<times> 'id callback_call list)" where
  "average_set_elapsed_time d i =
     (if length (samples d) \<ge> samples_count d \<and> samples d = [] then Inl pop_front_on_empty
      else
        let d1 = (if length (samples d) \<ge> samples_count d
                  then d\<lparr>samples := tl (samples d)\<rparr> else d);
            d2 = d1\<lparr>samples := samples d1 @ [i]\<rparr>
        in if length (samples d2) = samples_count d2
           then (case average d2 of
                   Inl e \<Rightarrow> Inl e
                 | Inr cur \<Rightarrow>
                     if cur > avg_trigger_level d2
                     then Inr (d2, [(avg_id d2, avg_trigger_level d2, cur)])
                     else Inr (d2, []))
           else Inr (d2, []))"

text \<open>
  A run of calls on one detector: the callback calls of each call are kept apart, one
  list per call, and the run stops at the first undefined step.
\<close>

fun average_run ::
  "'id interactive_average_detector \<Rightarrow> u32 list \<Rightarrow>
     error + ('id interactive_average_detector \<times> 'id callback_call list list)" where
  "average_run d [] = Inr (d, [])"
| "average_run d (i # is) =
     (case average_set_elapsed_time d i of
        Inl e \<Rightarrow> Inl e
      | Inr (d', cs) \<Rightarrow>
          (case average_run d' is of
             Inl e \<Rightarrow> Inl e
           | Inr (d'', css) \<Rightarrow> Inr (d'', cs # css)))"

subsection \<open>\<^verbatim>\<open>base_detector\<close>\<close>

text \<open>The two classes of the header that derive from \<^verbatim>\<open>base_detector\<close>.\<close>

datatype 'id base_detector =
    Peak "'id interactive_peak_detector"
  | Average "'id interactive_average_detector"

fun set_elapsed_time ::
  "'id base_detector \<Rightarrow> u32 \<Rightarrow> error + ('id base_detector \<times> 'id callback_call list)" where
  "set_elapsed_time (Peak d) i =
     (case peak_set_elapsed_time d i of (d', cs) \<Rightarrow> Inr (Peak d', cs))"
| "set_elapsed_time (Average d) i =
     (case average_set_elapsed_time d i of
        Inl e \<Rightarrow> Inl e
      | Inr (d', cs) \<Rightarrow> Inr (Average d', cs))"

subsection \<open>Time\<close>

text \<open>
  A \<^verbatim>\<open>time_point\<close> of \<^verbatim>\<open>std::chrono::high_resolution_clock\<close> is a count of clock
  ticks; the clock ticks in nanoseconds (libstdc++, libc++), so a millisecond is
  \<open>10 ^ 6\<close> ticks. \<^verbatim>\<open>elapsed_time\<close> is a \<^verbatim>\<open>std::chrono::milliseconds\<close>, a signed count.
\<close>

type_synonym time_point = int

definition ticks_per_ms :: int where
  "ticks_per_ms = 1000000"

record interactive_pool_time =
  init :: time_point
  finish :: time_point
  elapsed_time :: int

text \<open>\<^verbatim>\<open>duration_cast<milliseconds>\<close> of a tick count: the quotient, cut towards zero.\<close>

definition duration_cast_ms :: "int \<Rightarrow> int" where
  "duration_cast_ms d = (if d \<ge> 0 then d div ticks_per_ms else - ((- d) div ticks_per_ms))"

text \<open>
  What a call does outside the objects it is given: it reads the clock, takes the
  pool's lock to look at the free list, and sleeps. \<open>reads\<close> is the number of clock
  readings made so far, \<open>polls\<close> the number of times \<^verbatim>\<open>get_item\<close> has looked at the
  free list under the lock, \<open>sleeps\<close> the number of calls of
  \<^verbatim>\<open>sleep_for(milliseconds(1))\<close>. The clock is the sequence of its readings:
  \<open>clk k\<close> is what the \<open>k\<close>-th call of \<^verbatim>\<open>now()\<close> returns.
\<close>

record world =
  reads :: nat
  polls :: nat
  sleeps :: nat

definition now :: "(nat \<Rightarrow> time_point) \<Rightarrow> world \<Rightarrow> time_point \<times> world" where
  "now clk w = (clk (reads w), w\<lparr>reads := Suc (reads w)\<rparr>)"

subsection \<open>\<^verbatim>\<open>interactive_pool\<close>\<close>

text \<open>
  An \<^verbatim>\<open>item\<close> is a \<^verbatim>\<open>std::unique_ptr<T>\<close>: \<open>None\<close> is the null pointer, \<open>Some a\<close>
  owns the object \<open>a\<close>. Objects are named by the order in which the pool's constructor
  allocates them. \<^verbatim>\<open>_freeItems\<close> is the deque, front first.
\<close>

type_synonym item = "nat option"

record interactive_pool =
  initialSize :: nat
  freeItems :: "item list"

definition interactive_pool_ctor :: "nat \<Rightarrow> interactive_pool" where
  "interactive_pool_ctor n = \<lparr>initialSize = n, freeItems = map Some [0..<n]\<rparr>"

text \<open>\<^verbatim>\<open>std::to_string\<close> of a \<^verbatim>\<open>size_t\<close>: the decimal digits.\<close>

definition digit_char :: "nat \<Rightarrow> char" where
  "digit_char d = ''0123456789'' ! d"

fun to_string :: "nat \<Rightarrow> string" where
  "to_string n = (if n < 10 then [digit_char n] else to_string (n div 10) @ [digit_char (n mod 10)])"

declare to_string.simps [simp del]

definition check_before_destruct :: "interactive_pool \<Rightarrow> (error + unit) \<times> interactive_pool" where
  "check_before_destruct p =
     (let current = length (freeItems p) in
      if current \<noteq> initialSize p
      then (Inl (runtime_error
                  (''interactive_pool: Different count of items. Pool was created with [''
                   @ to_string (initialSize p) @ ''] but during destruction have [''
                   @ to_string current @ '']'')), p)
      else (Inr (), p))"

definition all_items_in_use :: error where
  "all_items_in_use = runtime_error ''interactive_pool: All items are in use''"

text \<open>
  The body of \<^verbatim>\<open>get_item\<close> before its loop: \<open>t0\<close> is read, and \<^verbatim>\<open>init\<close> of the sample
  is stamped with a reading of its own when a sample is given.
\<close>

definition get_item_enter ::
  "(nat \<Rightarrow> time_point) \<Rightarrow> world \<Rightarrow> interactive_pool_time option \<Rightarrow>
     time_point \<times> world \<times> interactive_pool_time option" where
  "get_item_enter clk w time_elapsed_ms =
     (case now clk w of (t0, w1) \<Rightarrow>
        (case time_elapsed_ms of
           None \<Rightarrow> (t0, w1, None)
         | Some tm \<Rightarrow> (case now clk w1 of (t, w2) \<Rightarrow> (t0, w2, Some (tm\<lparr>init := t\<rparr>)))))"

text \<open>
  The \<^verbatim>\<open>do ... while\<close> loop. \<^verbatim>\<open>elapsed\<close> is \<open>t1 - t0\<close> as a \<^verbatim>\<open>double\<close> of milliseconds
  and is compared with \<^verbatim>\<open>max_wait_ms\<close>; on tick counts that is
  \<open>t1 - t0 < max_wait_ms * ticks_per_ms\<close>. The loop need not end: the function returns
  \<open>None\<close> when it does not.
\<close>

partial_function (option) get_item_loop ::
  "(nat \<Rightarrow> time_point) \<Rightarrow> time_point \<Rightarrow> u32 \<Rightarrow> world \<Rightarrow> interactive_pool \<Rightarrow>
     interactive_pool_time option \<Rightarrow>
     ((error + item) \<times> world \<times> interactive_pool \<times> interactive_pool_time option) option" where
  "get_item_loop clk t0 max_wait_ms w p time_elapsed_ms =
     (let w1 = w\<lparr>polls := Suc (polls w)\<rparr> in
      if freeItems p \<noteq> []
      then
        (let j = hd (freeItems p);
             p' = p\<lparr>freeItems := tl (freeItems p)\<rparr>
         in case time_elapsed_ms of
              None \<Rightarrow> Some (Inr j, w1, p', None)
            | Some tm \<Rightarrow>
                (case now clk w1 of (t, w2) \<Rightarrow>
                   Some (Inr j, w2, p',
                         Some (tm\<lparr>finish := t, elapsed_time := duration_cast_ms (t - init tm)\<rparr>))))
      else
        (case now clk w1 of (t1, w2) \<Rightarrow>
           (let elapsed = t1 - t0;
                w3 = w2\<lparr>sleeps := Suc (sleeps w2)\<rparr>
            in if elapsed < uint max_wait_ms * ticks_per_ms
               then get_item_loop clk t0 max_wait_ms w3 p time_elapsed_ms
               else Some (Inl all_items_in_use, w3, p, time_elapsed_ms))))"

definition get_item ::
  "(nat \<Rightarrow> time_point) \<Rightarrow> world \<Rightarrow> interactive_pool \<Rightarrow> u32 \<Rightarrow> interactive_pool_time option \<Rightarrow>
     ((error + item) \<times> world \<times> interactive_pool \<times> interactive_pool_time option) option" where
  "get_item clk w p max_wait_ms time_elapsed_ms =
     (case get_item_enter clk w time_elapsed_ms of
        (t0, w', s') \<Rightarrow> get_item_loop clk t0 max_wait_ms w' p s')"

text \<open>The default arguments of \<^verbatim>\<open>get_item\<close>.\<close>

definition get_item_default_max_wait_ms :: u32 where
  "get_item_default_max_wait_ms = 4294967295"

definition get_item_default ::
  "(nat \<Rightarrow> time_point) \<Rightarrow> world \<Rightarrow> interactive_pool \<Rightarrow>
     ((error + item) \<times> world \<times> interactive_pool \<times> interactive_pool_time option) option" where
  "get_item_default clk w p = get_item clk w p get_item_default_max_wait_ms None"

definition get_available_count :: "interactive_pool \<Rightarrow> nat" where
  "get_available_count p = length (freeItems p)"

text \<open>
  \<^verbatim>\<open>set_item(item& r)\<close> moves \<open>r\<close> to the back of the deque. The caller's variable is
  left empty by the move: it is returned as the second component.
\<close>

definition set_item :: "interactive_pool \<Rightarrow> item \<Rightarrow> interactive_pool \<times> item" where
  "set_item p r = (p\<lparr>freeItems := freeItems p @ [r]\<rparr>, None)"

subsection \<open>\<^verbatim>\<open>interactive_pool_scoped_connection\<close>\<close>

text \<open>
  The guard keeps the item and two pointers. The constructor calls \<^verbatim>\<open>get_item\<close> through
  \<^verbatim>\<open>_pool\<close> before anything else, so in every defined execution the pointer is the
  address of a pool; the pool it points to is passed to the functions below. The
  record keeps, for each pointer, whether it is set.
\<close>

record interactive_pool_scoped_connection =
  guard_p :: item
  guard_pool_set :: bool
  guard_detector_set :: bool

text \<open>
  What a constructor call leaves behind: the counters of the world, the pool, the
  sample and the detector its pointer arguments point to (\<open>None\<close> for a null pointer),
  the calls of the detector's callback, and the arguments of the calls of
  \<^verbatim>\<open>set_elapsed_time\<close> it made, in order.
\<close>

record 'id outcome =
  out_world :: world
  out_pool :: interactive_pool
  out_sample :: "interactive_pool_time option"
  out_detector :: "'id base_detector option"
  out_callbacks :: "'id callback_call list"
  out_observed :: "u32 list"

text \<open>
  \<^verbatim>\<open>elapsed_time.count()\<close> is a signed 64-bit count; binding it to the parameter
  \<^verbatim>\<open>const uint32_t&\<close> of \<^verbatim>\<open>set_elapsed_time\<close> converts it to 32 bits.
  An exception leaving the constructor means that no guard exists: its destructor never
  runs.
\<close>

definition interactive_pool_scoped_connection_ctor ::
  "(nat \<Rightarrow> time_point) \<Rightarrow> world \<Rightarrow> interactive_pool \<Rightarrow> u32 \<Rightarrow> interactive_pool_time option \<Rightarrow>
     'id base_detector option \<Rightarrow>
     ((error + interactive_pool_scoped_connection) \<times> 'id outcome) option" where
  "interactive_pool_scoped_connection_ctor clk w pool max_wait_ms time_elapsed_ms detector =
     (case get_item clk w pool max_wait_ms time_elapsed_ms of
        None \<Rightarrow> None
      | Some (Inl e, w', pool', s') \<Rightarrow>
          Some (Inl e,
                \<lparr>out_world = w', out_pool = pool', out_sample = s', out_detector = detector,
                 out_callbacks = [], out_observed = []\<rparr>)
      | Some (Inr j, w', pool', s') \<Rightarrow>
          (let g = \<lparr>guard_p = j, guard_pool_set = True, guard_detector_set = (detector \<noteq> None)\<rparr>
           in case detector of
                None \<Rightarrow>
                  Some (Inr g,
                        \<lparr>out_world = w', out_pool = pool', out_sample = s', out_detector = None,
                         out_callbacks = [], out_observed = []\<rparr>)
              | Some d \<Rightarrow>
                  (case s' of
                     None \<Rightarrow>
                       Some (Inr g,
                             \<lparr>out_world = w', out_pool = pool', out_sample = None,
                              out_detector = Some d, out_callbacks = [], out_observed = []\<rparr>)
                   | Some tm \<Rightarrow>
                       (let i = (word_of_int (elapsed_time tm) :: u32)
                        in case set_elapsed_time d i of
                             Inl e \<Rightarrow>
                               Some (Inl e,
                                     \<lparr>out_world = w', out_pool = pool', out_sample = Some tm,
                                      out_detector = Some d, out_callbacks = [],
                                      out_observed = [i]\<rparr>)
                           | Inr (d', cs) \<Rightarrow>
                               Some (Inr g,
                                     \<lparr>out_world = w', out_pool = pool', out_sample = Some tm,
                                      out_detector = Some d', out_callbacks = cs,
                                      out_observed = [i]\<rparr>)))))"

text \<open>The constructor with the default \<^verbatim>\<open>max_wait_ms = 0\<close>, no sample and no detector.\<close>

definition scoped_connection_default_max_wait_ms :: u32 where
  "scoped_connection_default_max_wait_ms = 0"

definition interactive_pool_scoped_connection_ctor_default ::
  "(nat \<Rightarrow> time_point) \<Rightarrow> world \<Rightarrow> interactive_pool \<Rightarrow>
     ((error + interactive_pool_scoped_connection) \<times> 'id outcome) option" where
  "interactive_pool_scoped_connection_ctor_default clk w pool =
     interactive_pool_scoped_connection_ctor clk w pool scoped_connection_default_max_wait_ms
       None None"

text \<open>The destructor, applied to the pool \<^verbatim>\<open>_pool\<close> points to.\<close>

definition interactive_pool_scoped_connection_dtor ::
  "interactive_pool_scoped_connection \<Rightarrow> interactive_pool \<Rightarrow> interactive_pool" where
  "interactive_pool_scoped_connection_dtor g pool =
     (if guard_p g \<noteq> None \<and> guard_pool_set g then fst (set_item pool (guard_p g)) else pool)"

text \<open>
  A block that declares a guard and then works with the resource, as the workers of the
  examples do: \<^verbatim>\<open>{ interactive_pool_scoped_connection<T> c(pool, ...); c->Write(); }\<close>.
  \<open>body\<close> is the work done with the item; it ends normally (\<open>Inr\<close>) or by throwing
  (\<open>Inl\<close>). Either way the guard's destructor runs when the block is left. When the
  constructor throws there is no guard, and the block is left with the exception.
\<close>

definition scoped_block ::
  "(nat \<Rightarrow> time_point) \<Rightarrow> world \<Rightarrow> interactive_pool \<Rightarrow> u32 \<Rightarrow> interactive_pool_time option \<Rightarrow>
     'id base_detector option \<Rightarrow> (item \<Rightarrow> error + 'r) \<Rightarrow>
     ((error + 'r) \<times> 'id outcome) option" where
  "scoped_block clk w pool max_wait_ms time_elapsed_ms detector body =
     (case interactive_pool_scoped_connection_ctor clk w pool max_wait_ms time_elapsed_ms detector of
        None \<Rightarrow> None
      | Some (Inl e, out) \<Rightarrow> Some (Inl e, out)
      | Some (Inr g, out) \<Rightarrow>
          (let r = body (guard_p g)
           in Some (r, out\<lparr>out_pool := interactive_pool_scoped_connection_dtor g (out_pool out)\<rparr>)))"

subsection \<open>Callers of one pool\<close>

text \<open>
  The callers of a pool keep the items they were given in variables of type
  \<^verbatim>\<open>item\<close>, as \<^verbatim>\<open>worker\<close> of the example
  \<^verbatim>\<open>simple_scoped_pool_without_metric\<close> does. \<open>Get\<close> is
  \<^verbatim>\<open>c = pool->get_item(max_wait_ms, sample)\<close> into a new variable; a call that throws
  leaves no variable. \<open>Set k\<close> is \<^verbatim>\<open>pool->set_item(c)\<close> on the \<open>k\<close>-th variable,
  which the move leaves null. A handle is checked out while a variable holds it.
\<close>

record system =
  sys_world :: world
  sys_pool :: interactive_pool
  held :: "item list"

datatype op = Get u32 "interactive_pool_time option" | Set nat

definition system_init :: "nat \<Rightarrow> system" where
  "system_init n =
     \<lparr>sys_world = \<lparr>reads = 0, polls = 0, sleeps = 0\<rparr>, sys_pool = interactive_pool_ctor n,
      held = []\<rparr>"

definition checked_out :: "system \<Rightarrow> nat" where
  "checked_out s = length (filter (\<lambda>h. h \<noteq> None) (held s))"

text \<open>
  One operation. \<open>None\<close>: the call of \<^verbatim>\<open>get_item\<close> never returns, or \<open>Set k\<close> names a
  variable that does not exist.
\<close>

fun step :: "(nat \<Rightarrow> time_point) \<Rightarrow> system \<Rightarrow> op \<Rightarrow> system option" where
  "step clk s (Get max_wait_ms time_elapsed_ms) =
     (case get_item clk (sys_world s) (sys_pool s) max_wait_ms time_elapsed_ms of
        None \<Rightarrow> None
      | Some (Inl e, w', pool', s') \<Rightarrow> Some (s\<lparr>sys_world := w', sys_pool := pool'\<rparr>)
      | Some (Inr j, w', pool', s') \<Rightarrow>
          Some (s\<lparr>sys_world := w', sys_pool := pool', held := held s @ [j]\<rparr>))"
| "step clk s (Set k) =
     (if k < length (held s)
      then (case set_item (sys_pool s) (held s ! k) of
              (pool', r') \<Rightarrow> Some (s\<lparr>sys_pool := pool', held := (held s)[k := r']\<rparr>))
      else None)"

fun run :: "(nat \<Rightarrow> time_point) \<Rightarrow> system \<Rightarrow> op list \<Rightarrow> system option" where
  "run clk s [] = Some s"
| "run clk s (x # xs) = (case step clk s x of None \<Rightarrow> None | Some s' \<Rightarrow> run clk s' xs)"

text \<open>
  The discipline of release: every \<open>Set k\<close> of the sequence is applied to a variable
  that holds a handle at that moment (a handle is given back at most once).
\<close>

fun releases_held :: "(nat \<Rightarrow> time_point) \<Rightarrow> system \<Rightarrow> op list \<Rightarrow> bool" where
  "releases_held clk s [] = True"
| "releases_held clk s (x # xs) =
     ((case x of Set k \<Rightarrow> k < length (held s) \<and> held s ! k \<noteq> None | Get m t \<Rightarrow> True) \<and>
      (case step clk s x of None \<Rightarrow> True | Some s' \<Rightarrow> releases_held clk s' xs))"

subsection \<open>Notions used in the properties\<close>

text \<open>
  The window of an average detector is full: it holds \<^verbatim>\<open>_samples_count\<close> samples, at
  least one.
\<close>

definition window_full :: "'id interactive_average_detector \<Rightarrow> bool" where
  "window_full d = (samples_count d \<ge> 1 \<and> length (samples d) = samples_count d)"

text \<open>The window after the oldest sample has left and \<open>v\<close> has entered.\<close>

definition slide :: "'id interactive_average_detector \<Rightarrow> u32 \<Rightarrow> 'id interactive_average_detector" where
  "slide d v = d\<lparr>samples := tl (samples d) @ [v]\<rparr>"

text \<open>
  What a call of \<^verbatim>\<open>get_item\<close> that finds no item leaves behind: the exception, the
  pool and the sample as they were when the loop was entered, and one sleep and one
  clock reading for every look at the free list.
\<close>

definition failed_poll ::
  "world \<Rightarrow> interactive_pool \<Rightarrow> interactive_pool_time option \<Rightarrow>
     ((error + item) \<times> world \<times> interactive_pool \<times> interactive_pool_time option) \<Rightarrow> bool" where
  "failed_poll w p s r =
     (case r of (res, w', p', s') \<Rightarrow>
        res = Inl all_items_in_use \<and> p' = p \<and> s' = s \<and>
        polls w' + sleeps w = sleeps w' + polls w \<and> sleeps w < sleeps w' \<and>
        reads w' + sleeps w = sleeps w' + reads w)"

text \<open>The sample as it enters the loop: \<^verbatim>\<open>init\<close> holds the second clock reading of the call.\<close>

definition stamped_init ::
  "(nat \<Rightarrow> time_point) \<Rightarrow> world \<Rightarrow> interactive_pool_time option \<Rightarrow> interactive_pool_time option" where
  "stamped_init clk w s =
     (case s of None \<Rightarrow> None | Some tm \<Rightarrow> Some (tm\<lparr>init := clk (Suc (reads w))\<rparr>))"

text \<open>A clock that stands still, and the counters before anything has happened.\<close>

definition frozen_clock :: "nat \<Rightarrow> time_point" where
  "frozen_clock k = 0"

definition world_start :: world where
  "world_start = \<lparr>reads = 0, polls = 0, sleeps = 0\<rparr>"

text \<open>The number of calls of \<^verbatim>\<open>sleep_for\<close> made by one call of \<^verbatim>\<open>get_item\<close>.\<close>

definition sleeps_during ::
  "(nat \<Rightarrow> time_point) \<Rightarrow> world \<Rightarrow> interactive_pool \<Rightarrow> u32 \<Rightarrow> interactive_pool_time option \<Rightarrow>
     nat option" where
  "sleeps_during clk w p m s =
     (case get_item clk w p m s of
        None \<Rightarrow> None
      | Some (res, w', p', s') \<Rightarrow> Some (sleeps w' - sleeps w))"

text \<open>
  Conservation: the pool keeps its initial size, and the items of the free list together
  with the handles held by the callers are the \<open>n\<close> objects the constructor allocated,
  each once.
\<close>

definition conserved :: "nat \<Rightarrow> system \<Rightarrow> bool" where
  "conserved n s =
     (initialSize (sys_pool s) = n \<and>
      mset (freeItems (sys_pool s)) + mset (filter (\<lambda>h. h \<noteq> None) (held s)) =
        mset (map Some [0..<n]))"

text \<open>The number a string of decimal digits stands for.\<close>

definition decimal_value :: "string \<Rightarrow> nat" where
  "decimal_value cs = foldl (\<lambda>acc c. 10 * acc + (of_char c - 48)) 0 cs"

text \<open>The message of \<^verbatim>\<open>check_before_destruct\<close> for the two counts.\<close>

definition leak_message :: "nat \<Rightarrow> nat \<Rightarrow> string" where
  "leak_message expected found =
     ''interactive_pool: Different count of items. Pool was created with ['' @ to_string expected
       @ ''] but during destruction have ['' @ to_string found @ '']''"

section \<open>Properties of the detectors\<close>

subsection \<open>Peak detector\<close>

lemma peak_run_eq:
  "peak_run d vs =
     (d, map (\<lambda>v. if v > peak_trigger_level d
                    then [(peak_id d, peak_trigger_level d, v)] else []) vs)"
  by (induction vs) (simp_all add: peak_set_elapsed_time_def)

text \<open>
  C4. A peak detector built with identifier \<open>ident\<close> and trigger level \<open>t\<close> calls its
  callback on the value \<open>v\<close> exactly when \<open>v > t\<close>, with the arguments \<open>(ident, t, v)\<close>,
  and is left as it was built. So in any run of calls each call fires or not by its own
  value alone, whatever was observed before.
\<close>

theorem peak_detector_fires_iff_above_trigger:
  "set_elapsed_time (Peak (interactive_peak_detector_ctor ident t)) v =
     Inr (Peak (interactive_peak_detector_ctor ident t), if v > t then [(ident, t, v)] else [])
   \<and> peak_run (interactive_peak_detector_ctor ident t) vs =
       (interactive_peak_detector_ctor ident t,
        map (\<lambda>v. if v > t then [(ident, t, v)] else []) vs)"
  by (simp add: peak_run_eq) (simp add: peak_set_elapsed_time_def interactive_peak_detector_ctor_def)

text \<open>The example of the specification: trigger 1300, then 1500 and 1000 are observed.\<close>

lemma peak_run_example:
  "peak_run (interactive_peak_detector_ctor ''pool'' 1300) [1500, 1000] =
     (interactive_peak_detector_ctor ''pool'' 1300, [[(''pool'', 1300, 1500)], []])"
  by (simp add: peak_set_elapsed_time_def interactive_peak_detector_ctor_def)

subsection \<open>Average detector: the window\<close>

lemma window_full_ctor: "1 \<le> w \<Longrightarrow> window_full (interactive_average_detector_ctor ident w t)"
  by (simp add: window_full_def interactive_average_detector_ctor_def)

lemma window_full_slide: "window_full d \<Longrightarrow> window_full (slide d v)"
  by (cases "samples d") (auto simp: window_full_def slide_def)

lemma samples_count_slide [simp]: "samples_count (slide d v) = samples_count d"
  by (simp add: slide_def)

text \<open>On a full window a call slides the window and compares the new average.\<close>

lemma average_set_elapsed_time_full:
  assumes "window_full d"
  shows "average_set_elapsed_time d v =
           (case average (slide d v) of
              Inl e \<Rightarrow> Inl e
            | Inr cur \<Rightarrow>
                Inr (slide d v,
                     if cur > avg_trigger_level d
                     then [(avg_id d, avg_trigger_level d, cur)] else []))"
proof -
  from assms have ne: "samples d \<noteq> []" and len: "length (samples d) = samples_count d"
    by (auto simp: window_full_def)
  from ne len have l2: "length (tl (samples d) @ [v]) = samples_count d"
    by (cases "samples d") auto
  show ?thesis
    unfolding average_set_elapsed_time_def slide_def Let_def
    using ne len l2 by (simp split: sum.splits)
qed

lemma average_not_underflow: "average d \<noteq> Inl pop_front_on_empty"
  by (simp add: average_def)

lemma average_step_no_underflow:
  "window_full d \<Longrightarrow> average_set_elapsed_time d v \<noteq> Inl pop_front_on_empty"
  using average_not_underflow[of "slide d v"]
  by (auto simp: average_set_elapsed_time_full split: sum.splits)

lemma average_step_full:
  "window_full d \<Longrightarrow> average_set_elapsed_time d v = Inr (d', cs) \<Longrightarrow> d' = slide d v"
  by (simp add: average_set_elapsed_time_full split: sum.splits)

lemma average_run_full:
  "window_full d \<Longrightarrow>
     average_run d vs \<noteq> Inl pop_front_on_empty \<and>
     (\<forall>d' css. average_run d vs = Inr (d', css) \<longrightarrow>
        window_full d' \<and> samples_count d' = samples_count d)"
proof (induction vs arbitrary: d)
  case Nil
  then show ?case by simp
next
  case (Cons v vs)
  show ?case
  proof (cases "average_set_elapsed_time d v")
    case (Inl e)
    with average_step_no_underflow[OF Cons.prems, of v] show ?thesis by simp
  next
    case (Inr r)
    obtain d1 cs where r: "r = (d1, cs)" by (cases r)
    from average_step_full[OF Cons.prems] Inr r have d1: "d1 = slide d v" by simp
    have f: "window_full (slide d v)" by (rule window_full_slide[OF Cons.prems])
    note IH = Cons.IH[OF f]
    show ?thesis
    proof (cases "average_run (slide d v) vs")
      case (Inl e)
      with IH Inr r d1 show ?thesis by simp
    next
      case (Inr q)
      obtain d2 css where q: "q = (d2, css)" by (cases q)
      from IH Inr q have "window_full d2 \<and> samples_count d2 = samples_count d" by simp
      with \<open>average_set_elapsed_time d v = Inr r\<close> r d1 Inr q show ?thesis by simp
    qed
  qed
qed

text \<open>
  C10. For an average detector built with a window size \<open>w \<ge> 1\<close>, no run of calls ever
  reaches \<^verbatim>\<open>pop_front\<close> on an empty window, and after every call the window holds at
  most \<open>w\<close> samples. Built with \<open>w = 0\<close>, the first call already evicts from an empty
  window.
\<close>

theorem average_window_bounded_no_underflow:
  "(1 \<le> w \<longrightarrow>
      average_run (interactive_average_detector_ctor ident w t) vs \<noteq> Inl pop_front_on_empty \<and>
      (\<forall>d css. average_run (interactive_average_detector_ctor ident w t) vs = Inr (d, css) \<longrightarrow>
          length (samples d) \<le> w))
   \<and> average_set_elapsed_time (interactive_average_detector_ctor ident 0 t) v =
       Inl pop_front_on_empty"
proof (intro conjI impI allI)
  assume w: "1 \<le> w"
  from average_run_full[OF window_full_ctor[OF w, of ident t], of vs]
  show "average_run (interactive_average_detector_ctor ident w t) vs \<noteq> Inl pop_front_on_empty"
    by simp
next
  fix d css
  assume w: "1 \<le> w"
    and r: "average_run (interactive_average_detector_ctor ident w t) vs = Inr (d, css)"
  from average_run_full[OF window_full_ctor[OF w, of ident t], of vs] r
  have "window_full d"
    and "samples_count d = samples_count (interactive_average_detector_ctor ident w t)"
    by simp_all
  then show "length (samples d) \<le> w"
    by (simp add: window_full_def interactive_average_detector_ctor_def)
next
  show "average_set_elapsed_time (interactive_average_detector_ctor ident 0 t) v =
          Inl pop_front_on_empty"
    by (simp add: average_set_elapsed_time_def interactive_average_detector_ctor_def)
qed

theorem average_window_bounded_no_underflow_witness:
  "(1::nat) \<le> 3 \<and>
   average_run (interactive_average_detector_ctor (7::nat) 3 100) [50, 60, 200, 10] \<noteq>
     Inl pop_front_on_empty \<and>
   average_run (interactive_average_detector_ctor (7::nat) 3 100) [50, 60, 200, 10] =
     Inr (\<lparr>avg_id = 7, samples_count = 3, samples = [60, 200, 10], avg_trigger_level = 100\<rparr>,
          [[], [], [(7, 100, 103)], []]) \<and>
   length (samples \<lparr>avg_id = (7::nat), samples_count = 3, samples = [60, 200, 10],
                    avg_trigger_level = 100\<rparr>) \<le> 3"
proof -
  have h: "(1::nat) \<le> 3" by simp
  have e: "average_run (interactive_average_detector_ctor (7::nat) 3 100) [50, 60, 200, 10] =
     Inr (\<lparr>avg_id = 7, samples_count = 3, samples = [60, 200, 10], avg_trigger_level = 100\<rparr>,
          [[], [], [(7, 100, 103)], []])"
    by (simp add: average_set_elapsed_time_def interactive_average_detector_ctor_def average_def
        accumulate_def numeral_3_eq_3)
  note t = average_window_bounded_no_underflow
             [of 3 "7::nat" 100 "[50, 60, 200, 10]", THEN conjunct1, rule_format, OF h]
  from t[THEN conjunct1] e t[THEN conjunct2, rule_format, OF e] h show ?thesis
    by (intro conjI)
qed

subsection \<open>Average detector: the first calls\<close>

lemma samples_slide [simp]: "samples (slide d v) = tl (samples d) @ [v]"
  by (simp add: slide_def)

lemma replicate_2: "replicate 2 x = [x, x]"
  by (simp add: numeral_2_eq_2)

lemma replicate_3: "replicate 3 x = [x, x, x]"
  by (simp add: numeral_3_eq_3)

text \<open>
  After a run of calls the window holds the last samples of the initial window followed
  by the observed values; once \<open>w\<close> values have been observed it holds the last \<open>w\<close> of
  them.
\<close>

lemma average_run_window:
  "window_full d \<Longrightarrow> average_run d vs = Inr (d', css) \<Longrightarrow>
     samples d' = drop (length vs) (samples d @ vs) \<and> length css = length vs"
proof (induction vs arbitrary: d css)
  case Nil
  then show ?case by simp
next
  case (Cons v vs)
  from Cons.prems(2) obtain d1 cs css1 where
    st: "average_set_elapsed_time d v = Inr (d1, cs)" and
    r: "average_run d1 vs = Inr (d', css1)" and c: "css = cs # css1"
    by (auto split: sum.splits)
  from average_step_full[OF Cons.prems(1) st] have d1: "d1 = slide d v" .
  from Cons.prems(1) have ne: "samples d \<noteq> []" by (auto simp: window_full_def)
  from Cons.IH[OF window_full_slide[OF Cons.prems(1)] r[unfolded d1]]
  have "samples d' = drop (length vs) (tl (samples d) @ [v] @ vs)" and "length css1 = length vs"
    by simp_all
  with ne c show ?case by (cases "samples d") simp_all
qed

lemma average_run_last_samples:
  assumes "1 \<le> w" and "w \<le> length vs"
    and "average_run (interactive_average_detector_ctor ident w t) vs = Inr (d', css)"
  shows "samples d' = drop (length vs - w) vs"
proof -
  from average_run_window[OF window_full_ctor[OF assms(1)] assms(3)]
  have "samples d' = drop (length vs) (replicate w 0 @ vs)"
    by (simp add: interactive_average_detector_ctor_def)
  with assms(2) show ?thesis by simp
qed

text \<open>
  The example of the specification holds on the code: window 3, trigger 100, samples
  50, 60, 200 and then 10. The third call fires with 103, the others do not.
\<close>

lemma average_run_example:
  "average_run (interactive_average_detector_ctor ident 3 100) [50, 60, 200, 10] =
     Inr (\<lparr>avg_id = ident, samples_count = 3, samples = [60, 200, 10], avg_trigger_level = 100\<rparr>,
          [[], [], [(ident, 100, 103)], []])"
  by (simp add: average_set_elapsed_time_def interactive_average_detector_ctor_def average_def
      accumulate_def replicate_3)

text \<open>
  C3. The claim: no call of the callback is made before the window holds \<open>w\<close> observed
  samples, and from the \<open>w\<close>-th call on the callback is called with the truncated
  average of the last \<open>w\<close> samples exactly when that average exceeds the trigger level.
  On the code the window starts as \<open>w\<close> zeros, so the average is compared from the first
  call on: with window 3 and trigger 100, the single sample 400 gives the window
  \<open>[0, 0, 400]\<close>, the average 133, and a call of the callback on the first call.
\<close>

theorem average_detector_fires_on_first_sample:
  "average_run (interactive_average_detector_ctor ident 3 100) [400] =
     Inr (\<lparr>avg_id = ident, samples_count = 3, samples = [0, 0, 400], avg_trigger_level = 100\<rparr>,
          [[(ident, 100, 133)]])"
  by (simp add: average_set_elapsed_time_def interactive_average_detector_ctor_def average_def
      accumulate_def replicate_3)

text \<open>
  The sum of the window is kept in 32 bits. With window 2 and trigger 100, the second
  call sees the window \<open>[2 ^ 31, 2 ^ 31]\<close>, whose sum wraps to 0: the average computed is
  0 and the callback is not called.
\<close>

lemma average_sum_wraps:
  "average_run (interactive_average_detector_ctor ident 2 100) [2147483648, 2147483648] =
     Inr (\<lparr>avg_id = ident, samples_count = 2, samples = [2147483648, 2147483648],
            avg_trigger_level = 100\<rparr>,
          [[(ident, 100, 1073741824)], []])"
  by (simp add: average_set_elapsed_time_def interactive_average_detector_ctor_def average_def
      accumulate_def replicate_2)

section \<open>Properties of the pool\<close>

subsection \<open>One call of \<^verbatim>\<open>get_item\<close>\<close>

text \<open>With an item in the free list the first look takes the front item.\<close>

lemma get_item_loop_nonempty:
  "freeItems p \<noteq> [] \<Longrightarrow>
   get_item_loop clk t0 m w p s =
     Some (Inr (hd (freeItems p)),
           (case s of None \<Rightarrow> w\<lparr>polls := Suc (polls w)\<rparr>
            | Some tm \<Rightarrow> w\<lparr>polls := Suc (polls w), reads := Suc (reads w)\<rparr>),
           p\<lparr>freeItems := tl (freeItems p)\<rparr>,
           (case s of None \<Rightarrow> None
            | Some tm \<Rightarrow> Some (tm\<lparr>finish := clk (reads w),
                 elapsed_time := duration_cast_ms (clk (reads w) - init tm)\<rparr>)))"
  by (subst get_item_loop.simps) (simp add: now_def split: option.splits)

text \<open>
  With an empty free list the loop, followed by one thread, can only end by the
  exception. The proof is by induction on the unfolding of the loop.
\<close>

lemma get_item_loop_empty_aux:
  "get_item_loop clk t0 m w p s = Some r \<Longrightarrow> freeItems p = [] \<longrightarrow> failed_poll w p s r"
  apply (erule get_item_loop.raw_induct
     [rotated 1, where P = "\<lambda>clk t0 m w p s r. freeItems p = [] \<longrightarrow> failed_poll w p s r"])
  subgoal premises prems for f clk t0 m w p s r
  proof
    assume e: "freeItems p = []"
    let ?w = "w\<lparr>polls := Suc (polls w), reads := Suc (reads w), sleeps := Suc (sleeps w)\<rparr>"
    show "failed_poll w p s r"
    proof (cases "clk (reads w) - t0 < uint m * ticks_per_ms")
      case True
      with prems(2) e have "f clk t0 m ?w p s = Some r"
        by (simp add: now_def Let_def)
      from prems(1)[OF this] e have "failed_poll ?w p s r" by simp
      then show ?thesis by (auto simp: failed_poll_def)
    next
      case False
      with prems(2) e show ?thesis by (auto simp: now_def Let_def failed_poll_def)
    qed
  qed
  done

lemma get_item_loop_empty:
  "get_item_loop clk t0 m w p s = Some (res, w', p', s') \<Longrightarrow> freeItems p = [] \<Longrightarrow>
     res = Inl all_items_in_use \<and> p' = p \<and> s' = s"
  using get_item_loop_empty_aux[of clk t0 m w p s "(res, w', p', s')"]
  by (simp add: failed_poll_def)

lemma get_item_loop_zero_wait:
  assumes "freeItems p = []" and "t0 \<le> clk (reads w)"
  shows "get_item_loop clk t0 0 w p s =
           Some (Inl all_items_in_use,
                 w\<lparr>polls := Suc (polls w), reads := Suc (reads w), sleeps := Suc (sleeps w)\<rparr>,
                 p, s)"
  using assms by (subst get_item_loop.simps) (simp add: now_def Let_def)

lemma get_item_enter_eq:
  "get_item_enter clk w s =
     (clk (reads w),
      (case s of None \<Rightarrow> w\<lparr>reads := Suc (reads w)\<rparr>
       | Some tm \<Rightarrow> w\<lparr>reads := Suc (Suc (reads w))\<rparr>),
      stamped_init clk w s)"
  by (simp add: get_item_enter_def now_def stamped_init_def split: option.splits)

lemma get_item_failure:
  assumes "get_item clk w p m s = Some (res, w', p', s')" and "freeItems p = []"
  shows "res = Inl all_items_in_use \<and> p' = p \<and> s' = stamped_init clk w s"
  using assms get_item_loop_empty[of clk "clk (reads w)" m _ p "stamped_init clk w s" res w' p' s']
  by (simp add: get_item_def get_item_enter_eq)

lemma get_item_success:
  assumes "freeItems p \<noteq> []"
  shows "get_item clk w p m s =
     Some (Inr (hd (freeItems p)),
           (case s of None \<Rightarrow> w\<lparr>reads := Suc (reads w), polls := Suc (polls w)\<rparr>
            | Some tm \<Rightarrow> w\<lparr>reads := reads w + 3, polls := Suc (polls w)\<rparr>),
           p\<lparr>freeItems := tl (freeItems p)\<rparr>,
           (case s of None \<Rightarrow> None
            | Some tm \<Rightarrow> Some (tm\<lparr>init := clk (Suc (reads w)), finish := clk (reads w + 2),
                 elapsed_time := duration_cast_ms (clk (reads w + 2) - clk (Suc (reads w)))\<rparr>)))"
  using assms
  by (cases s) (simp_all add: get_item_def get_item_enter_eq get_item_loop_nonempty stamped_init_def)

text \<open>What a call that returns has done to the pool.\<close>

lemma get_item_pool:
  assumes "get_item clk w p m s = Some (res, w', p', s')"
  shows "initialSize p' = initialSize p \<and>
         (case res of Inl e \<Rightarrow> e = all_items_in_use \<and> freeItems p = [] \<and> p' = p
                    | Inr j \<Rightarrow> freeItems p = j # freeItems p')"
proof (cases "freeItems p = []")
  case True
  from get_item_failure[OF assms True] True show ?thesis by simp
next
  case False
  with assms get_item_success[OF False, of clk w m s] show ?thesis
    by (cases "freeItems p") auto
qed

lemma get_item_sample_kept:
  assumes "get_item clk w p m s = Some (res, w', p', s')"
  shows "(s' = None) = (s = None)"
proof (cases "freeItems p = []")
  case True
  from get_item_failure[OF assms True] show ?thesis
    by (simp add: stamped_init_def split: option.splits)
next
  case False
  from assms get_item_success[OF False, of clk w m s] show ?thesis
    by (auto split: option.splits)
qed

text \<open>
  A wait of 0 on an empty free list, when the clock reading after the look is not
  earlier than the first reading of the call.
\<close>

lemma get_item_zero_wait:
  assumes "freeItems p = []"
    and "clk (reads w) \<le> clk (reads w + (if s = None then 1 else 2))"
  shows "get_item clk w p 0 s =
           Some (Inl all_items_in_use,
                 w\<lparr>reads := reads w + (if s = None then 2 else 3),
                   polls := polls w + 1, sleeps := sleeps w + 1\<rparr>,
                 p,
                 stamped_init clk w s)"
  using assms
  by (cases s)
     (simp_all add: get_item_def get_item_enter_eq get_item_loop_zero_wait stamped_init_def)

subsection \<open>A wait of 0\<close>

text \<open>
  C2, as amended. On a pool whose free list is empty, and with a clock that never runs
  backwards, \<^verbatim>\<open>get_item\<close> with \<^verbatim>\<open>max_wait_ms = 0\<close> looks at the free list exactly once,
  sleeps exactly once (the \<^verbatim>\<open>sleep_for\<close> of the loop body comes before the loop's
  test), does not go round the loop again, and throws
  \<^verbatim>\<open>"interactive_pool: All items are in use"\<close>; the pool is left as it was, and of a
  sample only \<^verbatim>\<open>init\<close> is written.
\<close>

theorem get_item_zero_wait_on_empty_pool:
  assumes "freeItems p = []" and "mono clk"
  shows "get_item clk w p 0 s =
           Some (Inl all_items_in_use,
                 w\<lparr>reads := reads w + (if s = None then 2 else 3),
                   polls := polls w + 1, sleeps := sleeps w + 1\<rparr>,
                 p,
                 stamped_init clk w s)"
proof -
  from assms(2) have "clk (reads w) \<le> clk (reads w + (if s = None then 1 else 2))"
    by (simp add: monoD)
  from get_item_zero_wait[OF assms(1) this] show ?thesis .
qed

theorem get_item_zero_wait_on_empty_pool_witness:
  "freeItems (interactive_pool_ctor 0) = [] \<and> mono (\<lambda>k. int k * 1000) \<and>
   get_item (\<lambda>k. int k * 1000) \<lparr>reads = 0, polls = 0, sleeps = 0\<rparr> (interactive_pool_ctor 0) 0 None =
     Some (Inl all_items_in_use, \<lparr>reads = 2, polls = 1, sleeps = 1\<rparr>, interactive_pool_ctor 0, None)"
proof -
  have e: "freeItems (interactive_pool_ctor 0) = []" by (simp add: interactive_pool_ctor_def)
  have m: "mono (\<lambda>k. int k * 1000)" by (simp add: mono_def)
  from get_item_zero_wait_on_empty_pool[OF e m, of "\<lparr>reads = 0, polls = 0, sleeps = 0\<rparr>" None]
  have "get_item (\<lambda>k. int k * 1000) \<lparr>reads = 0, polls = 0, sleeps = 0\<rparr>
          (interactive_pool_ctor 0) 0 None =
     Some (Inl all_items_in_use, \<lparr>reads = 2, polls = 1, sleeps = 1\<rparr>, interactive_pool_ctor 0, None)"
    by (simp add: stamped_init_def)
  with e m show ?thesis by (intro conjI)
qed

text \<open>
  C2, as stated, asks for no sleep. On the empty pool of size 0, with a clock that
  stands still, the call with \<^verbatim>\<open>max_wait_ms = 0\<close> does not return after 0 sleeps: it
  sleeps once.
\<close>

theorem get_item_zero_wait_sleeps_once:
  "sleeps_during frozen_clock world_start (interactive_pool_ctor 0) 0 None = Some 1 \<and>
   sleeps_during frozen_clock world_start (interactive_pool_ctor 0) 0 None \<noteq> Some 0"
  by (simp add: sleeps_during_def get_item_zero_wait interactive_pool_ctor_def frozen_clock_def
      world_start_def)

text \<open>
  When the clock steps back between the first reading and the reading after the look,
  the elapsed time is negative, the test of the loop holds, and the call looks again.
\<close>

lemma get_item_zero_wait_clock_backwards:
  "get_item (\<lambda>k. if k = 1 then - 5 else 0) \<lparr>reads = 0, polls = 0, sleeps = 0\<rparr>
      (interactive_pool_ctor 0) 0 None =
     Some (Inl all_items_in_use, \<lparr>reads = 3, polls = 2, sleeps = 2\<rparr>, interactive_pool_ctor 0, None)"
  by (simp add: get_item_def get_item_enter_eq get_item_loop.simps now_def Let_def
      interactive_pool_ctor_def stamped_init_def ticks_per_ms_def)

text \<open>With a wait of 3 ms and a clock that advances 1 ms per reading the call looks three times.\<close>

lemma get_item_waits_example:
  "get_item (\<lambda>k. int k * 1000000) \<lparr>reads = 0, polls = 0, sleeps = 0\<rparr>
      (interactive_pool_ctor 0) 3 None =
     Some (Inl all_items_in_use, \<lparr>reads = 4, polls = 3, sleeps = 3\<rparr>, interactive_pool_ctor 0, None)"
  by (simp add: get_item_def get_item_enter_eq get_item_loop.simps now_def Let_def
      interactive_pool_ctor_def stamped_init_def ticks_per_ms_def)

subsection \<open>The sample\<close>

text \<open>
  C7. When \<^verbatim>\<open>get_item\<close> is given a sample, \<^verbatim>\<open>init\<close> is stamped before the loop is
  entered, with the second clock reading of the call. If the call ends by the exception,
  the sample is the given one with only \<^verbatim>\<open>init\<close> written: \<^verbatim>\<open>finish\<close> and
  \<^verbatim>\<open>elapsed_time\<close> are as at entry. If the call returns an item, \<^verbatim>\<open>finish\<close> is the clock
  reading taken when the item was obtained and \<^verbatim>\<open>elapsed_time\<close> the milliseconds
  from \<^verbatim>\<open>init\<close> to \<^verbatim>\<open>finish\<close>.
\<close>

theorem get_item_sample_frame:
  "get_item_enter clk w (Some tm) =
     (clk (reads w), w\<lparr>reads := reads w + 2\<rparr>, Some (tm\<lparr>init := clk (Suc (reads w))\<rparr>))
   \<and> get_item clk w p m (Some tm) =
       get_item_loop clk (clk (reads w)) m (w\<lparr>reads := reads w + 2\<rparr>) p
         (Some (tm\<lparr>init := clk (Suc (reads w))\<rparr>))
   \<and> (\<forall>res w' p' s'.
         get_item clk w p m (Some tm) = Some (res, w', p', s') \<longrightarrow>
         (case res of
            Inl e \<Rightarrow> s' = Some (tm\<lparr>init := clk (Suc (reads w))\<rparr>)
          | Inr j \<Rightarrow>
              s' = Some (tm\<lparr>init := clk (Suc (reads w)), finish := clk (reads w + 2),
                           elapsed_time :=
                             duration_cast_ms (clk (reads w + 2) - clk (Suc (reads w)))\<rparr>)))"
proof (intro conjI allI impI)
  show "get_item_enter clk w (Some tm) =
     (clk (reads w), w\<lparr>reads := reads w + 2\<rparr>, Some (tm\<lparr>init := clk (Suc (reads w))\<rparr>))"
    by (simp add: get_item_enter_eq stamped_init_def)
  then show "get_item clk w p m (Some tm) =
       get_item_loop clk (clk (reads w)) m (w\<lparr>reads := reads w + 2\<rparr>) p
         (Some (tm\<lparr>init := clk (Suc (reads w))\<rparr>))"
    by (simp add: get_item_def)
next
  fix res w' p' s'
  assume r: "get_item clk w p m (Some tm) = Some (res, w', p', s')"
  show "case res of
          Inl e \<Rightarrow> s' = Some (tm\<lparr>init := clk (Suc (reads w))\<rparr>)
        | Inr j \<Rightarrow>
            s' = Some (tm\<lparr>init := clk (Suc (reads w)), finish := clk (reads w + 2),
                         elapsed_time :=
                           duration_cast_ms (clk (reads w + 2) - clk (Suc (reads w)))\<rparr>)"
  proof (cases "freeItems p = []")
    case True
    from get_item_failure[OF r True] show ?thesis by (simp add: stamped_init_def)
  next
    case False
    from r get_item_success[OF False, of clk w m "Some tm"] show ?thesis by auto
  qed
qed

theorem get_item_sample_frame_witness:
  "get_item (\<lambda>k. int k * 400000) \<lparr>reads = 0, polls = 0, sleeps = 0\<rparr> (interactive_pool_ctor 0) 1
      (Some \<lparr>init = 5, finish = 6, elapsed_time = 7\<rparr>) =
     Some (Inl all_items_in_use, \<lparr>reads = 4, polls = 2, sleeps = 2\<rparr>, interactive_pool_ctor 0,
           Some \<lparr>init = 400000, finish = 6, elapsed_time = 7\<rparr>)
   \<and> Some \<lparr>init = 400000, finish = 6, elapsed_time = 7\<rparr> =
       Some (\<lparr>init = 5, finish = 6, elapsed_time = 7\<rparr>
              \<lparr>init := (\<lambda>k. int k * 400000) (Suc (reads \<lparr>reads = 0, polls = 0, sleeps = 0\<rparr>))\<rparr>)"
proof -
  have e: "get_item (\<lambda>k. int k * 400000) \<lparr>reads = 0, polls = 0, sleeps = 0\<rparr>
      (interactive_pool_ctor 0) 1 (Some \<lparr>init = 5, finish = 6, elapsed_time = 7\<rparr>) =
     Some (Inl all_items_in_use, \<lparr>reads = 4, polls = 2, sleeps = 2\<rparr>, interactive_pool_ctor 0,
           Some \<lparr>init = 400000, finish = 6, elapsed_time = 7\<rparr>)"
    by (simp add: get_item_def get_item_enter_eq get_item_loop.simps now_def Let_def
      interactive_pool_ctor_def stamped_init_def ticks_per_ms_def)
  from get_item_sample_frame[THEN conjunct2, THEN conjunct2, rule_format, OF e]
  have "Some \<lparr>init = 400000, finish = 6, elapsed_time = 7\<rparr> =
       Some (\<lparr>init = 5, finish = 6, elapsed_time = 7\<rparr>
              \<lparr>init := (\<lambda>k. int k * 400000) (Suc (reads \<lparr>reads = 0, polls = 0, sleeps = 0\<rparr>))\<rparr>)"
    by (simp only: sum.case)
  with e show ?thesis by (intro conjI)
qed

text \<open>A call that returns an item: the three fields of the sample after it.\<close>

lemma get_item_sample_example:
  "get_item (\<lambda>k. int k * 2000000) \<lparr>reads = 0, polls = 0, sleeps = 0\<rparr> (interactive_pool_ctor 1) 0
      (Some \<lparr>init = 0, finish = 0, elapsed_time = 0\<rparr>) =
     Some (Inr (Some 0), \<lparr>reads = 3, polls = 1, sleeps = 0\<rparr>,
           \<lparr>initialSize = 1, freeItems = []\<rparr>,
           Some \<lparr>init = 2000000, finish = 4000000, elapsed_time = 2\<rparr>)"
  by (simp add: get_item_success interactive_pool_ctor_def duration_cast_ms_def ticks_per_ms_def)

subsection \<open>Conservation\<close>

lemma conserved_init: "conserved n (system_init n)"
  by (simp add: conserved_def system_init_def interactive_pool_ctor_def)

lemma conserved_count:
  assumes "conserved n s"
  shows "get_available_count (sys_pool s) + checked_out s = n"
proof -
  have "get_available_count (sys_pool s) + checked_out s =
          size (mset (freeItems (sys_pool s)) + mset (filter (\<lambda>h. h \<noteq> None) (held s)))"
    by (simp only: get_available_count_def checked_out_def size_union size_mset)
  also from assms have "\<dots> = size (mset (map Some [0..<n]))"
    by (simp only: conserved_def)
  also have "\<dots> = n" by simp
  finally show ?thesis .
qed

lemma conserved_free_nonnull:
  assumes "conserved n s"
  shows "None \<notin> set (freeItems (sys_pool s))"
proof
  assume "None \<in> set (freeItems (sys_pool s))"
  then have "None \<in># mset (freeItems (sys_pool s)) + mset (filter (\<lambda>h. h \<noteq> None) (held s))"
    by simp
  with assms have "None \<in># mset (map Some [0..<n])" by (simp only: conserved_def)
  then show False by auto
qed

lemma mset_filter_update:
  "k < length xs \<Longrightarrow> P (xs ! k) \<Longrightarrow> \<not> P y \<Longrightarrow>
     mset (filter P (xs[k := y])) + {#xs ! k#} = mset (filter P xs)"
proof (induction xs arbitrary: k)
  case Nil
  then show ?case by simp
next
  case (Cons x xs)
  show ?case
  proof (cases k)
    case 0
    with Cons.prems show ?thesis by simp
  next
    case (Suc j)
    with Cons.prems Cons.IH[of j] show ?thesis by auto
  qed
qed

text \<open>One operation keeps the objects, when a \<open>Set\<close> gives back a handle that is held.\<close>

lemma step_conserved:
  assumes "conserved n s" and "step clk s x = Some s'"
    and "case x of Set k \<Rightarrow> held s ! k \<noteq> None | Get m t \<Rightarrow> True"
  shows "conserved n s'"
proof (cases x)
  case (Get m t)
  from assms(2) Get obtain res w' pool' t' where
    gi: "get_item clk (sys_world s) (sys_pool s) m t = Some (res, w', pool', t')"
    by (auto split: option.splits)
  note eff = get_item_pool[OF gi]
  show ?thesis
  proof (cases res)
    case (Inl e)
    with assms(1,2) Get gi eff show ?thesis by (auto simp: conserved_def)
  next
    case (Inr j)
    with eff have fp: "freeItems (sys_pool s) = j # freeItems pool'"
      and sz: "initialSize pool' = initialSize (sys_pool s)" by simp_all
    from conserved_free_nonnull[OF assms(1)] fp have nn: "j \<noteq> None"
      by (metis list.set_intros(1))
    from assms(2) Get gi Inr
    have s': "s' = s\<lparr>sys_world := w', sys_pool := pool', held := held s @ [j]\<rparr>"
      by simp
    from assms(1) fp sz nn show ?thesis unfolding s' by (simp add: conserved_def)
  qed
next
  case (Set k)
  with assms(2) have k: "k < length (held s)" by (simp split: if_splits)
  from assms(3) Set have nn: "held s ! k \<noteq> None" by simp
  from assms(2) Set k
  have s': "s' = s\<lparr>sys_pool := (sys_pool s)\<lparr>freeItems := freeItems (sys_pool s) @ [held s ! k]\<rparr>,
                   held := (held s)[k := None]\<rparr>"
    by (simp add: set_item_def)
  from mset_filter_update[OF k, of "\<lambda>h. h \<noteq> None" None] nn
  have upd: "mset (filter (\<lambda>h. h \<noteq> None) ((held s)[k := None])) + {#held s ! k#} =
        mset (filter (\<lambda>h. h \<noteq> None) (held s))" by simp
  have "mset (freeItems (sys_pool s) @ [held s ! k]) +
          mset (filter (\<lambda>h. h \<noteq> None) ((held s)[k := None])) =
        mset (freeItems (sys_pool s)) +
          (mset (filter (\<lambda>h. h \<noteq> None) ((held s)[k := None])) + {#held s ! k#})"
    by simp
  also have "\<dots> = mset (freeItems (sys_pool s)) + mset (filter (\<lambda>h. h \<noteq> None) (held s))"
    by (simp only: upd)
  also from assms(1) have "\<dots> = mset (map Some [0..<n])" by (simp only: conserved_def)
  finally have m: "mset (freeItems (sys_pool s) @ [held s ! k]) +
          mset (filter (\<lambda>h. h \<noteq> None) ((held s)[k := None])) = mset (map Some [0..<n])" .
  from assms(1) have "initialSize (sys_pool s) = n" by (simp only: conserved_def)
  with m show ?thesis unfolding s' conserved_def by simp
qed

lemma run_conserved:
  "conserved n s \<Longrightarrow> releases_held clk s ops \<Longrightarrow> run clk s ops = Some s' \<Longrightarrow> conserved n s'"
proof (induction ops arbitrary: s)
  case Nil
  then show ?case by simp
next
  case (Cons x xs)
  from Cons.prems(3) obtain s1 where st: "step clk s x = Some s1" and r: "run clk s1 xs = Some s'"
    by (auto split: option.splits)
  from Cons.prems(2) st have d: "case x of Set k \<Rightarrow> held s ! k \<noteq> None | Get m t \<Rightarrow> True"
    and rh: "releases_held clk s1 xs"
    by (auto split: op.splits)
  from Cons.IH[OF step_conserved[OF Cons.prems(1) st d] rh r] show ?case .
qed

text \<open>The discipline of release holds of every prefix of a sequence it holds of.\<close>

lemma releases_held_take:
  "releases_held clk s ops \<Longrightarrow> releases_held clk s (take k ops)"
proof (induction ops arbitrary: s k)
  case Nil
  then show ?case by simp
next
  case (Cons x xs)
  show ?case
  proof (cases k)
    case 0
    then show ?thesis by simp
  next
    case (Suc j)
    with Cons.prems Cons.IH[of _ j] show ?thesis by (auto split: option.splits)
  qed
qed

text \<open>Two gets, a get that finds the pool of size 2 empty, and a release.\<close>

lemma run_example:
  "run (\<lambda>k. 0) (system_init 2) [Get 0 None, Get 0 None, Get 0 None, Set 0] =
     Some \<lparr>sys_world = \<lparr>reads = 4, polls = 3, sleeps = 1\<rparr>,
           sys_pool = \<lparr>initialSize = 2, freeItems = [Some 0]\<rparr>,
           held = [None, Some 1]\<rparr>"
  by (simp add: system_init_def interactive_pool_ctor_def upt_conv_Cons get_item_success
      get_item_zero_wait stamped_init_def set_item_def)

lemma releases_held_example:
  "releases_held (\<lambda>k. 0) (system_init 2) [Get 0 None, Get 0 None, Get 0 None, Set 0]"
  by (simp add: system_init_def interactive_pool_ctor_def upt_conv_Cons get_item_success
      get_item_zero_wait stamped_init_def set_item_def)

text \<open>
  C1. A pool built with size \<open>n\<close> has \<open>n\<close> free items. In every sequence of
  \<^verbatim>\<open>get_item\<close> and \<^verbatim>\<open>set_item\<close> calls on one pool in which each \<^verbatim>\<open>set_item\<close> gives back
  a handle that a caller holds, after every operation of the sequence the number of free
  items plus the number of handles held is \<open>n\<close>; more, the free items and the held
  handles together are exactly the \<open>n\<close> objects the constructor made, each once.
\<close>

theorem pool_conserves_resources:
  "get_available_count (interactive_pool_ctor n) = n \<and>
   (releases_held clk (system_init n) ops \<longrightarrow>
      (\<forall>k s. run clk (system_init n) (take k ops) = Some s \<longrightarrow>
         get_available_count (sys_pool s) + checked_out s = n \<and>
         mset (freeItems (sys_pool s)) + mset (filter (\<lambda>h. h \<noteq> None) (held s)) =
           mset (map Some [0..<n])))"
proof (intro conjI impI allI)
  show "get_available_count (interactive_pool_ctor n) = n"
    by (simp add: get_available_count_def interactive_pool_ctor_def)
next
  fix k s
  assume rh: "releases_held clk (system_init n) ops"
    and r: "run clk (system_init n) (take k ops) = Some s"
  from run_conserved[OF conserved_init releases_held_take[OF rh] r]
  have c: "conserved n s" .
  from conserved_count[OF c] show "get_available_count (sys_pool s) + checked_out s = n" .
  from c show "mset (freeItems (sys_pool s)) + mset (filter (\<lambda>h. h \<noteq> None) (held s)) =
           mset (map Some [0..<n])"
    by (simp only: conserved_def)
qed

theorem pool_conserves_resources_witness:
  "releases_held (\<lambda>k. 0) (system_init 2) [Get 0 None, Get 0 None, Get 0 None, Set 0] \<and>
   run (\<lambda>k. 0) (system_init 2) (take 4 [Get 0 None, Get 0 None, Get 0 None, Set 0]) =
     Some \<lparr>sys_world = \<lparr>reads = 4, polls = 3, sleeps = 1\<rparr>,
           sys_pool = \<lparr>initialSize = 2, freeItems = [Some 0]\<rparr>,
           held = [None, Some 1]\<rparr> \<and>
   get_available_count \<lparr>initialSize = 2, freeItems = [Some 0]\<rparr> +
     checked_out \<lparr>sys_world = \<lparr>reads = 4, polls = 3, sleeps = 1\<rparr>,
                  sys_pool = \<lparr>initialSize = 2, freeItems = [Some 0]\<rparr>,
                  held = [None, Some 1]\<rparr> = 2"
proof -
  have r: "run (\<lambda>k. 0) (system_init 2) (take 4 [Get 0 None, Get 0 None, Get 0 None, Set 0]) =
     Some \<lparr>sys_world = \<lparr>reads = 4, polls = 3, sleeps = 1\<rparr>,
           sys_pool = \<lparr>initialSize = 2, freeItems = [Some 0]\<rparr>,
           held = [None, Some 1]\<rparr>"
    using run_example by simp
  from pool_conserves_resources
         [of 2 "\<lambda>k. 0" "[Get 0 None, Get 0 None, Get 0 None, Set 0]",
          THEN conjunct2, rule_format, OF releases_held_example r, THEN conjunct1]
  have "get_available_count \<lparr>initialSize = 2, freeItems = [Some 0]\<rparr> +
     checked_out \<lparr>sys_world = \<lparr>reads = 4, polls = 3, sleeps = 1\<rparr>,
                  sys_pool = \<lparr>initialSize = 2, freeItems = [Some 0]\<rparr>,
                  held = [None, Some 1]\<rparr> = 2"
    by (simp only: system.simps)
  with releases_held_example r show ?thesis by (intro conjI)
qed

text \<open>
  The discipline is needed: \<^verbatim>\<open>set_item\<close> takes any item, and a second call on a
  variable that the first call left null puts a null item into the free list.
\<close>

lemma set_item_twice:
  "run (\<lambda>k. 0) (system_init 1) [Get 0 None, Set 0, Set 0] =
     Some \<lparr>sys_world = \<lparr>reads = 1, polls = 1, sleeps = 0\<rparr>,
           sys_pool = \<lparr>initialSize = 1, freeItems = [Some 0, None]\<rparr>,
           held = [None]\<rparr>"
  by (simp add: system_init_def interactive_pool_ctor_def upt_conv_Cons get_item_success
      set_item_def)

subsection \<open>The check before the pool is destroyed\<close>

lemma decimal_value_snoc: "decimal_value (cs @ [c]) = 10 * decimal_value cs + (of_char c - 48)"
  by (simp add: decimal_value_def)

lemma of_char_digit: "d < 10 \<Longrightarrow> of_char (digit_char d) - 48 = d"
  by (auto simp: digit_char_def less_Suc_eq numeral_eq_Suc)

text \<open>\<^verbatim>\<open>to_string\<close> writes the number: read back as decimal digits it is the number.\<close>

lemma decimal_value_to_string: "decimal_value (to_string n) = n"
proof (induction n rule: to_string.induct)
  case (1 n)
  show ?case
  proof (cases "n < 10")
    case True
    then show ?thesis
      by (subst to_string.simps) (simp add: decimal_value_def of_char_digit)
  next
    case False
    have "decimal_value (to_string n) =
            10 * decimal_value (to_string (n div 10)) + (of_char (digit_char (n mod 10)) - 48)"
      using False by (subst to_string.simps) (simp add: decimal_value_snoc)
    with 1[OF False] show ?thesis by (simp add: of_char_digit)
  qed
qed

text \<open>
  C6. \<^verbatim>\<open>check_before_destruct\<close> leaves the pool as it is. It succeeds exactly when the
  free list has as many items as the pool was built with. Otherwise it throws a
  \<^verbatim>\<open>runtime_error\<close> whose message holds the initial size and the size of the free list,
  both in decimal. For a pool used by callers that only give back handles they hold, it
  succeeds exactly when no handle is held.
\<close>

theorem check_before_destruct_detects_leak:
  "snd (check_before_destruct p) = p \<and>
   (fst (check_before_destruct p) = Inr ()) = (get_available_count p = initialSize p) \<and>
   (get_available_count p \<noteq> initialSize p \<longrightarrow>
      fst (check_before_destruct p) =
        Inl (runtime_error (leak_message (initialSize p) (get_available_count p)))) \<and>
   decimal_value (to_string (initialSize p)) = initialSize p \<and>
   decimal_value (to_string (get_available_count p)) = get_available_count p \<and>
   (releases_held clk (system_init n) ops \<longrightarrow> run clk (system_init n) ops = Some s \<longrightarrow>
      (fst (check_before_destruct (sys_pool s)) = Inr ()) = (checked_out s = 0))"
proof (intro conjI impI)
  show "snd (check_before_destruct p) = p"
    by (simp add: check_before_destruct_def Let_def)
  show "(fst (check_before_destruct p) = Inr ()) = (get_available_count p = initialSize p)"
    by (simp add: check_before_destruct_def Let_def get_available_count_def)
  show "decimal_value (to_string (initialSize p)) = initialSize p"
    and "decimal_value (to_string (get_available_count p)) = get_available_count p"
    by (rule decimal_value_to_string)+
next
  assume "get_available_count p \<noteq> initialSize p"
  then show "fst (check_before_destruct p) =
        Inl (runtime_error (leak_message (initialSize p) (get_available_count p)))"
    by (simp add: check_before_destruct_def Let_def get_available_count_def leak_message_def)
next
  assume rh: "releases_held clk (system_init n) ops" and r: "run clk (system_init n) ops = Some s"
  from run_conserved[OF conserved_init rh r] have c: "conserved n s" .
  then have sz: "initialSize (sys_pool s) = n" by (simp only: conserved_def)
  from conserved_count[OF c] sz
  have "(get_available_count (sys_pool s) = initialSize (sys_pool s)) = (checked_out s = 0)"
    by auto
  then show "(fst (check_before_destruct (sys_pool s)) = Inr ()) = (checked_out s = 0)"
    by (simp add: check_before_destruct_def Let_def get_available_count_def)
qed

theorem check_before_destruct_detects_leak_witness:
  "get_available_count \<lparr>initialSize = 2, freeItems = [Some 1]\<rparr> \<noteq>
     initialSize \<lparr>initialSize = 2, freeItems = [Some 1]\<rparr> \<and>
   fst (check_before_destruct \<lparr>initialSize = 2, freeItems = [Some 1]\<rparr>) =
     Inl (runtime_error ''interactive_pool: Different count of items. Pool was created with [2] but during destruction have [1]'') \<and>
   releases_held (\<lambda>k. 0) (system_init 2) [Get 0 None] \<and>
   run (\<lambda>k. 0) (system_init 2) [Get 0 None] =
     Some \<lparr>sys_world = \<lparr>reads = 1, polls = 1, sleeps = 0\<rparr>,
           sys_pool = \<lparr>initialSize = 2, freeItems = [Some 1]\<rparr>, held = [Some 0]\<rparr> \<and>
   fst (check_before_destruct \<lparr>initialSize = 2, freeItems = [Some 1]\<rparr>) \<noteq> Inr () \<and>
   checked_out \<lparr>sys_world = \<lparr>reads = 1, polls = 1, sleeps = 0\<rparr>,
                sys_pool = \<lparr>initialSize = 2, freeItems = [Some 1]\<rparr>, held = [Some 0]\<rparr> \<noteq> 0"
proof -
  let ?P = "\<lparr>initialSize = 2, freeItems = [Some 1]\<rparr>"
  let ?S = "\<lparr>sys_world = \<lparr>reads = 1, polls = 1, sleeps = 0\<rparr>, sys_pool = ?P, held = [Some 0]\<rparr>"
  have d: "get_available_count ?P \<noteq> initialSize ?P"
    by (simp add: get_available_count_def)
  have rh: "releases_held (\<lambda>k. 0) (system_init 2) [Get 0 None]"
    by (simp add: system_init_def interactive_pool_ctor_def upt_conv_Cons get_item_success)
  have r: "run (\<lambda>k. 0) (system_init 2) [Get 0 None] = Some ?S"
    by (simp add: system_init_def interactive_pool_ctor_def upt_conv_Cons get_item_success)
  note t = check_before_destruct_detects_leak[of ?P "\<lambda>k. 0" 2 "[Get 0 None]" ?S]
  from t[THEN conjunct2, THEN conjunct2, THEN conjunct1, rule_format, OF d]
  have m: "fst (check_before_destruct ?P) =
     Inl (runtime_error ''interactive_pool: Different count of items. Pool was created with [2] but during destruction have [1]'')"
    by (simp add: leak_message_def get_available_count_def to_string.simps digit_char_def)
  from m have f: "fst (check_before_destruct ?P) \<noteq> Inr ()" by simp
  from t[THEN conjunct2, THEN conjunct2, THEN conjunct2, THEN conjunct2, THEN conjunct2,
         rule_format, OF rh r] f
  have c: "checked_out ?S \<noteq> 0" by simp
  from d m rh r f c show ?thesis by (intro conjI)
qed

section \<open>Properties of the guard\<close>

subsection \<open>The constructor\<close>

lemma ctor_on_failure:
  assumes "get_item clk w pool m s = Some (Inl e, w', pool', s')"
  shows "interactive_pool_scoped_connection_ctor clk w pool m s d =
           Some (Inl e, \<lparr>out_world = w', out_pool = pool', out_sample = s', out_detector = d,
                        out_callbacks = [], out_observed = []\<rparr>)"
  using assms by (simp add: interactive_pool_scoped_connection_ctor_def)

lemma ctor_on_success_unobserved:
  assumes "get_item clk w pool m s = Some (Inr j, w', pool', s')" and "s' = None \<or> d = None"
  shows "interactive_pool_scoped_connection_ctor clk w pool m s d =
           Some (Inr \<lparr>guard_p = j, guard_pool_set = True, guard_detector_set = (d \<noteq> None)\<rparr>,
                 \<lparr>out_world = w', out_pool = pool', out_sample = s', out_detector = d,
                  out_callbacks = [], out_observed = []\<rparr>)"
  using assms
  by (auto simp: interactive_pool_scoped_connection_ctor_def Let_def split: option.splits)

lemma ctor_on_success_observed:
  assumes "get_item clk w pool m s = Some (Inr j, w', pool', Some tm)"
  shows "interactive_pool_scoped_connection_ctor clk w pool m s (Some det) =
           (case set_elapsed_time det (word_of_int (elapsed_time tm)) of
              Inl e \<Rightarrow>
                Some (Inl e, \<lparr>out_world = w', out_pool = pool', out_sample = Some tm,
                             out_detector = Some det, out_callbacks = [],
                             out_observed = [word_of_int (elapsed_time tm)]\<rparr>)
            | Inr (det', cs) \<Rightarrow>
                Some (Inr \<lparr>guard_p = j, guard_pool_set = True, guard_detector_set = True\<rparr>,
                      \<lparr>out_world = w', out_pool = pool', out_sample = Some tm,
                       out_detector = Some det', out_callbacks = cs,
                       out_observed = [word_of_int (elapsed_time tm)]\<rparr>))"
  using assms
  by (simp add: interactive_pool_scoped_connection_ctor_def Let_def split: sum.splits)

text \<open>
  C8. Let the call of \<^verbatim>\<open>get_item\<close> made by the guard's constructor return. If it
  returns an item and both a sample and a detector were given, \<^verbatim>\<open>set_elapsed_time\<close> is
  called exactly once, with \<^verbatim>\<open>elapsed_time\<close> of the sample converted to 32 bits, and the
  detector and the callback calls are those of that one call. If it returns an item and
  the sample or the detector is missing, no call is made and the detector is untouched.
  If it throws, the constructor throws the same error: there is no guard, no call of
  the detector is made, the pool is as it was, and a block that declares the guard is
  left with the error without a release.
\<close>

theorem scoped_connection_ctor_observes_once:
  assumes "get_item clk w pool m s = Some (res, w', pool', s')"
  shows "\<exists>r out.
           interactive_pool_scoped_connection_ctor clk w pool m s d = Some (r, out) \<and>
           (case res of
              Inl e \<Rightarrow>
                r = Inl e \<and> out_observed out = [] \<and> out_callbacks out = [] \<and>
                out_detector out = d \<and> out_pool out = pool \<and>
                scoped_block clk w pool m s d body = Some (Inl e, out)
            | Inr j \<Rightarrow>
                (case (s', d) of
                   (Some tm, Some det) \<Rightarrow>
                     s \<noteq> None \<and>
                     out_observed out = [word_of_int (elapsed_time tm)] \<and>
                     (case set_elapsed_time det (word_of_int (elapsed_time tm)) of
                        Inl e \<Rightarrow> r = Inl e
                      | Inr (det', cs) \<Rightarrow>
                          r = Inr \<lparr>guard_p = j, guard_pool_set = True, guard_detector_set = True\<rparr> \<and>
                          out_detector out = Some det' \<and> out_callbacks out = cs)
                 | _ \<Rightarrow>
                     (s = None \<or> d = None) \<and>
                     r = Inr \<lparr>guard_p = j, guard_pool_set = True,
                              guard_detector_set = (d \<noteq> None)\<rparr> \<and>
                     out_observed out = [] \<and> out_callbacks out = [] \<and> out_detector out = d))"
proof (cases res)
  case (Inl e)
  with get_item_pool[OF assms] have p: "pool' = pool" by simp
  from assms Inl ctor_on_failure[of clk w pool m s e w' pool' s' d] p show ?thesis
    by (simp add: scoped_block_def)
next
  case (Inr j)
  note k = get_item_sample_kept[OF assms]
  show ?thesis
  proof (cases "s' = None \<or> d = None")
    case True
    from assms Inr ctor_on_success_unobserved[of clk w pool m s j w' pool' s' d] True k
    show ?thesis by (auto split: option.splits)
  next
    case False
    then obtain tm det where sd: "s' = Some tm" "d = Some det" by auto
    from assms Inr sd ctor_on_success_observed[of clk w pool m s j w' pool' tm det] k
    show ?thesis by (auto split: sum.splits)
  qed
qed

theorem scoped_connection_ctor_observes_once_witness:
  "get_item (\<lambda>k. int k * 2000000) \<lparr>reads = 0, polls = 0, sleeps = 0\<rparr> (interactive_pool_ctor 1) 0
      (Some \<lparr>init = 0, finish = 0, elapsed_time = 0\<rparr>) =
     Some (Inr (Some 0), \<lparr>reads = 3, polls = 1, sleeps = 0\<rparr>,
           \<lparr>initialSize = 1, freeItems = []\<rparr>,
           Some \<lparr>init = 2000000, finish = 4000000, elapsed_time = 2\<rparr>)
   \<and> (\<exists>r out.
        interactive_pool_scoped_connection_ctor (\<lambda>k. int k * 2000000)
          \<lparr>reads = 0, polls = 0, sleeps = 0\<rparr> (interactive_pool_ctor 1) 0
          (Some \<lparr>init = 0, finish = 0, elapsed_time = 0\<rparr>)
          (Some (Peak (interactive_peak_detector_ctor ''pool'' 1))) = Some (r, out) \<and>
        out_observed out = [2] \<and>
        r = Inr \<lparr>guard_p = Some 0, guard_pool_set = True, guard_detector_set = True\<rparr> \<and>
        out_detector out = Some (Peak (interactive_peak_detector_ctor ''pool'' 1)) \<and>
        out_callbacks out = [(''pool'', 1, 2)])"
proof -
  note e = get_item_sample_example
  from scoped_connection_ctor_observes_once
         [OF e, of "Some (Peak (interactive_peak_detector_ctor ''pool'' 1))" "\<lambda>_. Inr ()"]
  have "\<exists>r out.
        interactive_pool_scoped_connection_ctor (\<lambda>k. int k * 2000000)
          \<lparr>reads = 0, polls = 0, sleeps = 0\<rparr> (interactive_pool_ctor 1) 0
          (Some \<lparr>init = 0, finish = 0, elapsed_time = 0\<rparr>)
          (Some (Peak (interactive_peak_detector_ctor ''pool'' 1))) = Some (r, out) \<and>
        out_observed out = [2] \<and>
        r = Inr \<lparr>guard_p = Some 0, guard_pool_set = True, guard_detector_set = True\<rparr> \<and>
        out_detector out = Some (Peak (interactive_peak_detector_ctor ''pool'' 1)) \<and>
        out_callbacks out = [(''pool'', 1, 2)]"
    by (simp add: peak_set_elapsed_time_def interactive_peak_detector_ctor_def)
  with e show ?thesis by (intro conjI)
qed

subsection \<open>Construction and destruction\<close>

lemma dtor_returns:
  "guard_p g \<noteq> None \<Longrightarrow> guard_pool_set g \<Longrightarrow>
     interactive_pool_scoped_connection_dtor g pool =
       pool\<lparr>freeItems := freeItems pool @ [guard_p g]\<rparr>"
  by (simp add: interactive_pool_scoped_connection_dtor_def set_item_def)

text \<open>A guard that was built holds the item that was at the front of the free list.\<close>

lemma ctor_guard:
  assumes "interactive_pool_scoped_connection_ctor clk w pool m s d = Some (Inr g, out)"
  shows "freeItems pool = guard_p g # freeItems (out_pool out) \<and> guard_pool_set g \<and>
         initialSize (out_pool out) = initialSize pool"
proof (cases "get_item clk w pool m s")
  case None
  with assms show ?thesis by (simp add: interactive_pool_scoped_connection_ctor_def)
next
  case (Some q)
  obtain res w' pool' s' where q: "q = (res, w', pool', s')" by (cases q)
  note gi = Some[unfolded q]
  show ?thesis
  proof (cases res)
    case (Inl e)
    with gi assms show ?thesis by (simp add: ctor_on_failure)
  next
    case (Inr j)
    from get_item_pool[OF gi] Inr have fp: "freeItems pool = j # freeItems pool'"
      and sz: "initialSize pool' = initialSize pool" by simp_all
    show ?thesis
    proof (cases "s' = None \<or> d = None")
      case True
      from ctor_on_success_unobserved[OF gi[unfolded Inr] True] assms fp sz
      show ?thesis by auto
    next
      case False
      then obtain tm det where sd: "s' = Some tm" "d = Some det" by auto
      from ctor_on_success_observed[OF gi[unfolded Inr sd(1)], of det] assms sd fp sz
      show ?thesis by (auto split: sum.splits)
    qed
  qed
qed

text \<open>
  C5. Let the constructor of a guard succeed on a pool whose free list holds no null
  item (as is the case for a pool whose callers only give back handles they hold). The
  guard holds the item that was at the front of the free list, and its destructor
  puts that item at the back of the free list, once: the free list is the old one
  with its front moved to the back, and \<^verbatim>\<open>get_available_count\<close> is what it was before the
  construction. A block that declares the guard ends with the destructor whether its
  body returns or throws, so this holds for every \<open>body\<close>.
\<close>

theorem scoped_connection_round_trip:
  assumes "interactive_pool_scoped_connection_ctor clk w pool m s d = Some (Inr g, out)"
    and "None \<notin> set (freeItems pool)"
  shows "guard_p g = hd (freeItems pool) \<and>
         freeItems (out_pool out) = tl (freeItems pool) \<and>
         freeItems (interactive_pool_scoped_connection_dtor g (out_pool out)) =
           tl (freeItems pool) @ [hd (freeItems pool)] \<and>
         get_available_count (interactive_pool_scoped_connection_dtor g (out_pool out)) =
           get_available_count pool \<and>
         scoped_block clk w pool m s d body =
           Some (body (guard_p g),
                 out\<lparr>out_pool := interactive_pool_scoped_connection_dtor g (out_pool out)\<rparr>)"
proof -
  from ctor_guard[OF assms(1)] have fp: "freeItems pool = guard_p g # freeItems (out_pool out)"
    and ps: "guard_pool_set g" by simp_all
  from fp assms(2) have nn: "guard_p g \<noteq> None" by (metis list.set_intros(1))
  from fp nn ps assms(1) show ?thesis
    by (simp add: dtor_returns get_available_count_def scoped_block_def)
qed

theorem scoped_connection_round_trip_witness:
  "interactive_pool_scoped_connection_ctor (\<lambda>k. 0) \<lparr>reads = 0, polls = 0, sleeps = 0\<rparr>
      (interactive_pool_ctor 2) 0 None (None :: nat base_detector option) =
     Some (Inr \<lparr>guard_p = Some 0, guard_pool_set = True, guard_detector_set = False\<rparr>,
           \<lparr>out_world = \<lparr>reads = 1, polls = 1, sleeps = 0\<rparr>,
            out_pool = \<lparr>initialSize = 2, freeItems = [Some 1]\<rparr>, out_sample = None,
            out_detector = None, out_callbacks = [], out_observed = []\<rparr>)
   \<and> None \<notin> set (freeItems (interactive_pool_ctor 2))
   \<and> freeItems (interactive_pool_scoped_connection_dtor
         \<lparr>guard_p = Some 0, guard_pool_set = True, guard_detector_set = False\<rparr>
         \<lparr>initialSize = 2, freeItems = [Some 1]\<rparr>) = [Some 1, Some 0]
   \<and> get_available_count (interactive_pool_scoped_connection_dtor
         \<lparr>guard_p = Some 0, guard_pool_set = True, guard_detector_set = False\<rparr>
         \<lparr>initialSize = 2, freeItems = [Some 1]\<rparr>) = 2"
proof -
  have c: "interactive_pool_scoped_connection_ctor (\<lambda>k. 0) \<lparr>reads = 0, polls = 0, sleeps = 0\<rparr>
      (interactive_pool_ctor 2) 0 None (None :: nat base_detector option) =
     Some (Inr \<lparr>guard_p = Some 0, guard_pool_set = True, guard_detector_set = False\<rparr>,
           \<lparr>out_world = \<lparr>reads = 1, polls = 1, sleeps = 0\<rparr>,
            out_pool = \<lparr>initialSize = 2, freeItems = [Some 1]\<rparr>, out_sample = None,
            out_detector = None, out_callbacks = [], out_observed = []\<rparr>)"
    by (simp add: interactive_pool_scoped_connection_ctor_def get_item_success
        interactive_pool_ctor_def upt_conv_Cons)
  have n: "None \<notin> set (freeItems (interactive_pool_ctor 2))"
    by (simp add: interactive_pool_ctor_def)
  note t = scoped_connection_round_trip[OF c n, of "\<lambda>_. Inr ()"]
  from t[THEN conjunct2, THEN conjunct2, THEN conjunct1]
  have f: "freeItems (interactive_pool_scoped_connection_dtor
         \<lparr>guard_p = Some 0, guard_pool_set = True, guard_detector_set = False\<rparr>
         \<lparr>initialSize = 2, freeItems = [Some 1]\<rparr>) = [Some 1, Some 0]"
    by (simp add: interactive_pool_ctor_def upt_conv_Cons)
  from t[THEN conjunct2, THEN conjunct2, THEN conjunct2, THEN conjunct1]
  have a: "get_available_count (interactive_pool_scoped_connection_dtor
         \<lparr>guard_p = Some 0, guard_pool_set = True, guard_detector_set = False\<rparr>
         \<lparr>initialSize = 2, freeItems = [Some 1]\<rparr>) = 2"
    by (simp add: interactive_pool_ctor_def get_available_count_def upt_conv_Cons)
  from c n f a show ?thesis by (intro conjI)
qed

text \<open>
  A null item in the free list, which only a \<^verbatim>\<open>set_item\<close> on a null variable can put
  there, is taken by the constructor and not given back by the destructor.
\<close>

lemma null_item_not_returned:
  "scoped_block (\<lambda>k. 0) \<lparr>reads = 0, polls = 0, sleeps = 0\<rparr> \<lparr>initialSize = 1, freeItems = [None]\<rparr>
     0 None (None :: nat base_detector option) (\<lambda>_. Inr ()) =
   Some (Inr (), \<lparr>out_world = \<lparr>reads = 1, polls = 1, sleeps = 0\<rparr>,
                  out_pool = \<lparr>initialSize = 1, freeItems = []\<rparr>, out_sample = None,
                  out_detector = None, out_callbacks = [], out_observed = []\<rparr>)"
  by (simp add: scoped_block_def interactive_pool_scoped_connection_ctor_def get_item_success
      interactive_pool_scoped_connection_dtor_def)

subsection \<open>The default wait\<close>

text \<open>
  With the default wait of \<^verbatim>\<open>get_item\<close> a call on an empty free list does not fail
  after its first look while fewer than \<open>2 ^ 32 - 1\<close> milliseconds have passed: it looks
  again.
\<close>

lemma get_item_default_polls_again:
  assumes e: "freeItems pool = []"
    and c: "clk (Suc (reads w)) - clk (reads w) < (2 ^ 32 - 1) * ticks_per_ms"
    and r: "get_item_default clk w pool = Some (res, w', p', s')"
  shows "polls w + 2 \<le> polls w'"
proof -
  let ?w1 = "w\<lparr>reads := Suc (reads w)\<rparr>"
  let ?w3 = "?w1\<lparr>polls := Suc (polls ?w1), reads := Suc (reads ?w1), sleeps := Suc (sleeps ?w1)\<rparr>"
  have u: "uint get_item_default_max_wait_ms = 2 ^ 32 - 1"
    by (simp add: get_item_default_max_wait_ms_def)
  from r have "get_item_loop clk (clk (reads w)) get_item_default_max_wait_ms ?w1 pool None =
      Some (res, w', p', s')"
    by (simp add: get_item_default_def get_item_def get_item_enter_eq stamped_init_def)
  with e c u have "get_item_loop clk (clk (reads w)) get_item_default_max_wait_ms ?w3 pool None =
      Some (res, w', p', s')"
    by (subst (asm) get_item_loop.simps) (simp add: now_def Let_def)
  from get_item_loop_empty_aux[OF this] e have "failed_poll ?w3 pool None (res, w', p', s')"
    by simp
  then show ?thesis by (simp add: failed_poll_def)
qed

text \<open>
  C9, as amended. The default \<^verbatim>\<open>max_wait_ms\<close> of the guard's constructor is 0, that of
  \<^verbatim>\<open>get_item\<close> is the largest \<^verbatim>\<open>uint32_t\<close>, \<open>2 ^ 32 - 1\<close>. So on a pool whose free list
  is empty, with a clock that never runs backwards, a guard built with the default
  arguments looks at the free list once and fails with
  \<^verbatim>\<open>"interactive_pool: All items are in use"\<close> (after the one sleep of the loop body),
  the pool unchanged; whereas \<^verbatim>\<open>get_item\<close> called with its default arguments looks at
  least twice, if it returns at all, when the clock has advanced by less than
  \<open>2 ^ 32 - 1\<close> milliseconds at the first look.
\<close>

theorem scoped_connection_default_tries_once:
  "scoped_connection_default_max_wait_ms = 0 \<and>
   (\<forall>m. m \<le> get_item_default_max_wait_ms) \<and>
   unat get_item_default_max_wait_ms = 2 ^ 32 - 1 \<and>
   (freeItems pool = [] \<longrightarrow> mono clk \<longrightarrow>
      interactive_pool_scoped_connection_ctor_default clk w pool =
        Some (Inl all_items_in_use,
              \<lparr>out_world = w\<lparr>reads := reads w + 2, polls := polls w + 1, sleeps := sleeps w + 1\<rparr>,
               out_pool = pool, out_sample = None, out_detector = None,
               out_callbacks = [], out_observed = []\<rparr>)) \<and>
   (freeItems pool = [] \<longrightarrow>
    clk (Suc (reads w)) - clk (reads w) < (2 ^ 32 - 1) * ticks_per_ms \<longrightarrow>
      (\<forall>res w' p' s'. get_item_default clk w pool = Some (res, w', p', s') \<longrightarrow>
         polls w + 2 \<le> polls w'))"
proof (intro conjI impI allI)
  show "scoped_connection_default_max_wait_ms = 0"
    by (simp add: scoped_connection_default_max_wait_ms_def)
next
  fix m :: u32
  have top: "get_item_default_max_wait_ms = - 1" by (simp add: get_item_default_max_wait_ms_def)
  show "m \<le> get_item_default_max_wait_ms" unfolding top by (rule word_n1_ge)
next
  show "unat get_item_default_max_wait_ms = 2 ^ 32 - 1"
    by (simp add: get_item_default_max_wait_ms_def)
next
  assume e: "freeItems pool = []" and m: "mono clk"
  from m have "clk (reads w) \<le> clk (reads w + (if (None :: interactive_pool_time option) = None then 1 else 2))"
    by (simp add: monoD)
  from get_item_zero_wait[OF e this]
  have "get_item clk w pool 0 None =
      Some (Inl all_items_in_use,
            w\<lparr>reads := reads w + 2, polls := polls w + 1, sleeps := sleeps w + 1\<rparr>, pool, None)"
    by (simp add: stamped_init_def)
  then show "interactive_pool_scoped_connection_ctor_default clk w pool =
        Some (Inl all_items_in_use,
              \<lparr>out_world = w\<lparr>reads := reads w + 2, polls := polls w + 1, sleeps := sleeps w + 1\<rparr>,
               out_pool = pool, out_sample = None, out_detector = None,
               out_callbacks = [], out_observed = []\<rparr>)"
    by (simp add: interactive_pool_scoped_connection_ctor_default_def ctor_on_failure
        scoped_connection_default_max_wait_ms_def)
next
  fix res w' p' s'
  assume "freeItems pool = []"
    and "clk (Suc (reads w)) - clk (reads w) < (2 ^ 32 - 1) * ticks_per_ms"
    and "get_item_default clk w pool = Some (res, w', p', s')"
  then show "polls w + 2 \<le> polls w'" by (rule get_item_default_polls_again)
qed

theorem scoped_connection_default_tries_once_witness:
  "freeItems (interactive_pool_ctor 0) = [] \<and> mono (\<lambda>k. int k * 1000) \<and>
   interactive_pool_scoped_connection_ctor_default (\<lambda>k. int k * 1000)
       \<lparr>reads = 0, polls = 0, sleeps = 0\<rparr> (interactive_pool_ctor 0) =
     Some (Inl all_items_in_use,
           \<lparr>out_world = \<lparr>reads = 2, polls = 1, sleeps = 1\<rparr>,
            out_pool = interactive_pool_ctor 0, out_sample = None,
            out_detector = (None :: nat base_detector option),
            out_callbacks = [], out_observed = []\<rparr>) \<and>
   (\<lambda>k. int k * 1000) (Suc (reads \<lparr>reads = 0, polls = 0, sleeps = 0\<rparr>))
     - (\<lambda>k. int k * 1000) (reads \<lparr>reads = 0, polls = 0, sleeps = 0\<rparr>)
     < (2 ^ 32 - 1) * ticks_per_ms \<and>
   get_item_default (\<lambda>k. int k * 1000000000000000) \<lparr>reads = 0, polls = 0, sleeps = 0\<rparr>
       (interactive_pool_ctor 0) =
     Some (Inl all_items_in_use, \<lparr>reads = 6, polls = 5, sleeps = 5\<rparr>, interactive_pool_ctor 0,
           None) \<and>
   polls \<lparr>reads = 0, polls = 0, sleeps = 0\<rparr> + 2 \<le> polls \<lparr>reads = 6, polls = 5, sleeps = 5\<rparr>"
proof -
  let ?w = "\<lparr>reads = 0, polls = 0, sleeps = 0\<rparr>"
  have e: "freeItems (interactive_pool_ctor 0) = []" by (simp add: interactive_pool_ctor_def)
  have m: "mono (\<lambda>k. int k * 1000)" by (simp add: mono_def)
  from scoped_connection_default_tries_once
         [of "interactive_pool_ctor 0" "\<lambda>k. int k * 1000" ?w,
          THEN conjunct2, THEN conjunct2, THEN conjunct2, THEN conjunct1, rule_format, OF e m]
  have c: "interactive_pool_scoped_connection_ctor_default (\<lambda>k. int k * 1000) ?w
       (interactive_pool_ctor 0) =
     Some (Inl all_items_in_use,
           \<lparr>out_world = \<lparr>reads = 2, polls = 1, sleeps = 1\<rparr>,
            out_pool = interactive_pool_ctor 0, out_sample = None,
            out_detector = (None :: nat base_detector option),
            out_callbacks = [], out_observed = []\<rparr>)"
    by (simp add: numeral_2_eq_2)
  have b: "(\<lambda>k. int k * 1000) (Suc (reads ?w)) - (\<lambda>k. int k * 1000) (reads ?w)
             < (2 ^ 32 - 1) * ticks_per_ms"
    by (simp add: ticks_per_ms_def)
  have b': "(\<lambda>k. int k * 1000000000000000) (Suc (reads ?w))
              - (\<lambda>k. int k * 1000000000000000) (reads ?w) < (2 ^ 32 - 1) * ticks_per_ms"
    by (simp add: ticks_per_ms_def)
  have g: "get_item_default (\<lambda>k. int k * 1000000000000000) ?w (interactive_pool_ctor 0) =
     Some (Inl all_items_in_use, \<lparr>reads = 6, polls = 5, sleeps = 5\<rparr>, interactive_pool_ctor 0,
           None)"
    by (simp add: get_item_default_def get_item_default_max_wait_ms_def get_item_def
        get_item_enter_eq get_item_loop.simps now_def Let_def interactive_pool_ctor_def
        stamped_init_def ticks_per_ms_def)
  from scoped_connection_default_tries_once
         [of "interactive_pool_ctor 0" "\<lambda>k. int k * 1000000000000000" ?w,
          THEN conjunct2, THEN conjunct2, THEN conjunct2, THEN conjunct2, rule_format,
          OF e b' g]
  have p: "polls ?w + 2 \<le> polls \<lparr>reads = 6, polls = 5, sleeps = 5\<rparr>" .
  from e m c b g p show ?thesis by (intro conjI)
qed

text \<open>
  C9, as stated, says that the guard built with the default arguments fails at once,
  without waiting, on every pool whose free list is empty. On the empty pool of size 0,
  with a clock that stands still, the constructor fails only after one call of
  \<^verbatim>\<open>sleep_for\<close>: the number of sleeps is not what it was before the call.
\<close>

theorem scoped_connection_default_sleeps_once:
  "interactive_pool_scoped_connection_ctor_default frozen_clock world_start (interactive_pool_ctor 0) =
     Some (Inl all_items_in_use,
           \<lparr>out_world = \<lparr>reads = 2, polls = 1, sleeps = 1\<rparr>,
            out_pool = interactive_pool_ctor 0, out_sample = None,
            out_detector = (None :: nat base_detector option),
            out_callbacks = [], out_observed = []\<rparr>) \<and>
   sleeps \<lparr>reads = 2, polls = 1, sleeps = 1\<rparr> \<noteq> sleeps world_start"
proof -
  have "get_item frozen_clock world_start (interactive_pool_ctor 0) 0 None =
      Some (Inl all_items_in_use, \<lparr>reads = 2, polls = 1, sleeps = 1\<rparr>, interactive_pool_ctor 0, None)"
    by (simp add: get_item_zero_wait interactive_pool_ctor_def frozen_clock_def world_start_def
        stamped_init_def)
  then show ?thesis
    by (simp add: interactive_pool_scoped_connection_ctor_default_def ctor_on_failure
        scoped_connection_default_max_wait_ms_def world_start_def)
qed

text \<open>
  When the clock steps back after the first reading, the guard built with the default
  arguments looks at the free list twice and sleeps twice before it fails.
\<close>

lemma scoped_connection_default_clock_backwards:
  "interactive_pool_scoped_connection_ctor_default (\<lambda>k. if k = 1 then - 5 else 0)
       \<lparr>reads = 0, polls = 0, sleeps = 0\<rparr> (interactive_pool_ctor 0) =
     Some (Inl all_items_in_use,
           \<lparr>out_world = \<lparr>reads = 3, polls = 2, sleeps = 2\<rparr>,
            out_pool = interactive_pool_ctor 0, out_sample = None,
            out_detector = (None :: nat base_detector option),
            out_callbacks = [], out_observed = []\<rparr>)"
  unfolding interactive_pool_scoped_connection_ctor_default_def
    scoped_connection_default_max_wait_ms_def
  by (rule ctor_on_failure[OF get_item_zero_wait_clock_backwards])

end
